theory Spec2Isabelle
  imports Main
begin

section \<open>PasteLite: record lifecycle and view-limited consumption\<close>

text \<open>
  A shallow embedding of the paste service: the Mongoose schema of a paste
  (\<^verbatim>\<open>models/Paste.js\<close>), the clock helper (\<^verbatim>\<open>utils/time.js\<close>), the validation
  middleware (\<^verbatim>\<open>utils/validation.js\<close>), the JSON routes (\<^verbatim>\<open>routes/pastes.js\<close>)
  and the HTML route (\<^verbatim>\<open>routes/view.js\<close>).
  A field that is \<^verbatim>\<open>null\<close> or \<^verbatim>\<open>undefined\<close> is \<^const>\<open>None\<close>.
\<close>

subsection \<open>Numbers\<close>

text \<open>
  A JavaScript number is a double. The numbers of this program are whole
  (instants in milliseconds, view counts), infinite, or \<^verbatim>\<open>NaN\<close>. A whole
  number is held exactly up to \<open>2^53\<close>; beyond that a double keeps 53
  significant bits, and \<open>toDouble\<close> rounds an integer to the nearest such
  value, ties to the even one, and to infinity from \<open>2^1024\<close> on. The sum,
  difference and product of two doubles are the exact results rounded in
  the same way.
\<close>

datatype number = NaN | Finite int | PosInf | NegInf

fun bitLength :: "nat \<Rightarrow> nat" where
  "bitLength n = (if n = 0 then 0 else Suc (bitLength (n div 2)))"

declare bitLength.simps [simp del]

definition roundMagnitude :: "nat \<Rightarrow> nat option" where
  "roundMagnitude a =
     (if a \<le> 2 ^ 53 then Some a
      else
        (let sh = bitLength a - 53;
             q = a div 2 ^ sh;
             r = a mod 2 ^ sh;
             half = 2 ^ (sh - 1);
             q' = (if half < r \<or> (r = half \<and> odd q) then q + 1 else q);
             v = q' * 2 ^ sh
         in if 2 ^ 1024 \<le> v then None else Some v))"

definition toDouble :: "int \<Rightarrow> number" where
  "toDouble n =
     (case roundMagnitude (nat \<bar>n\<bar>) of
        None \<Rightarrow> if n < 0 then NegInf else PosInf
      | Some v \<Rightarrow> Finite (if n < 0 then - int v else int v))"

fun numLess :: "number \<Rightarrow> number \<Rightarrow> bool" where
  "numLess NaN y = False"
| "numLess x NaN = False"
| "numLess (Finite a) (Finite b) = (a < b)"
| "numLess PosInf y = False"
| "numLess x PosInf = True"
| "numLess NegInf NegInf = False"
| "numLess NegInf (Finite b) = True"
| "numLess (Finite a) NegInf = False"

fun numLessEq :: "number \<Rightarrow> number \<Rightarrow> bool" where
  "numLessEq NaN y = False"
| "numLessEq x NaN = False"
| "numLessEq (Finite a) (Finite b) = (a \<le> b)"
| "numLessEq x PosInf = True"
| "numLessEq PosInf y = False"
| "numLessEq NegInf y = True"
| "numLessEq (Finite a) NegInf = False"

fun numNeg :: "number \<Rightarrow> number" where
  "numNeg NaN = NaN"
| "numNeg (Finite a) = Finite (- a)"
| "numNeg PosInf = NegInf"
| "numNeg NegInf = PosInf"

fun numAdd :: "number \<Rightarrow> number \<Rightarrow> number" where
  "numAdd NaN y = NaN"
| "numAdd x NaN = NaN"
| "numAdd (Finite a) (Finite b) = toDouble (a + b)"
| "numAdd PosInf NegInf = NaN"
| "numAdd NegInf PosInf = NaN"
| "numAdd PosInf y = PosInf"
| "numAdd x PosInf = PosInf"
| "numAdd NegInf y = NegInf"
| "numAdd x NegInf = NegInf"

definition numSub :: "number \<Rightarrow> number \<Rightarrow> number" where
  "numSub x y = numAdd x (numNeg y)"

fun signOf :: "number \<Rightarrow> int" where
  "signOf NaN = 0"
| "signOf (Finite a) = sgn a"
| "signOf PosInf = 1"
| "signOf NegInf = - 1"

fun numMul :: "number \<Rightarrow> number \<Rightarrow> number" where
  "numMul NaN y = NaN"
| "numMul x NaN = NaN"
| "numMul (Finite a) (Finite b) = toDouble (a * b)"
| "numMul x y =
     (let s = signOf x * signOf y
      in if s = 0 then NaN else if 0 < s then PosInf else NegInf)"

subsection \<open>The paste document\<close>

text \<open>
  The dates are valid \<^verbatim>\<open>Date\<close>s, held as their time value in milliseconds;
  \<open>maxViews\<close> is whatever number Mongoose cast it to; \<open>viewsUsed\<close> is the
  counter the database increments, a whole number.
\<close>

record paste =
  content :: string
  createdAt :: int
  expiresAt :: "int option"
  maxViews :: "number option"
  viewsUsed :: int

subsection \<open>Requests and responses\<close>

text \<open>
  Of an Express request the handlers read the headers, the route parameter
  \<^verbatim>\<open>id\<close> and the parsed JSON body. A field of the body is absent, \<^verbatim>\<open>null\<close>,
  a boolean, a number or a string: \<open>JNum n\<close> is a number literal whose value
  is the integer \<open>n\<close> (read as the double \<open>toDouble n\<close>), \<open>JFraction\<close> one
  whose value is not whole. Arrays and objects as field values are left out.
  Strings are strings of characters below 256.
\<close>

datatype jsvalue =
  JUndefined
  | JNull
  | JBool bool
  | JNum int
  | JFraction
  | JStr string

record raw_body =
  raw_content :: jsvalue
  raw_ttl_seconds :: jsvalue
  raw_max_views :: jsvalue

record request =
  headers :: "string \<rightharpoonup> string"
  params_id :: string
  body :: raw_body

text \<open>
  A response is what the handler hands to \<^verbatim>\<open>res.json\<close> or \<^verbatim>\<open>res.send\<close>, with
  its status. Of the body of a 400 the fields that failed are kept, in the
  order of the validation chains, and the messages are left out. An
  \<^verbatim>\<open>expires_at\<close> is kept as the instant it prints.
\<close>

datatype json_body =
  ErrorBody string
  | ValidationFailed "string list"
  | CreatedBody string string
  | PasteBody string "number option" "int option"

datatype page =
  Page404
  | Page500
  | PastePage paste "number option"

datatype response =
  Json nat json_body
  | Html nat page

subsection \<open>The clock: \<^verbatim>\<open>utils/time.js\<close>\<close>

text \<open>
  \<^verbatim>\<open>parseInt(s, 10)\<close>: skip leading white space, take an optional sign, read
  the longest prefix of decimal digits; no digit gives \<^verbatim>\<open>NaN\<close>, and the
  digits give the double nearest to the integer they write. Whatever follows
  the digits is ignored. Header values reach the handler as Latin-1 strings,
  so the white space characters are those below 256.
\<close>

definition isStrWhiteSpaceChar :: "char \<Rightarrow> bool" where
  "isStrWhiteSpaceChar c = ((of_char c :: nat) \<in> {9, 10, 11, 12, 13, 32, 160})"

definition isDecimalDigit :: "char \<Rightarrow> bool" where
  "isDecimalDigit c = (48 \<le> (of_char c :: nat) \<and> (of_char c :: nat) \<le> 57)"

definition digitValue :: "char \<Rightarrow> int" where
  "digitValue c = int (of_char c) - 48"

definition digitsToInt :: "string \<Rightarrow> int" where
  "digitsToInt ds = foldl (\<lambda>a c. 10 * a + digitValue c) 0 ds"

definition parseInt10 :: "string \<Rightarrow> number" where
  "parseInt10 s =
     (let S = dropWhile isStrWhiteSpaceChar s;
          sign = (case S of [] \<Rightarrow> 1 | c # _ \<Rightarrow> if c = CHR ''-'' then - 1 else (1::int));
          S' = (case S of [] \<Rightarrow> []
                | c # cs \<Rightarrow> if c = CHR ''+'' \<or> c = CHR ''-'' then cs else S);
          Z = takeWhile isDecimalDigit S'
      in if Z = [] then NaN else toDouble (sign * digitsToInt Z))"

text \<open>
  \<^verbatim>\<open>getCurrentTime(req)\<close>. The two ambient reads are parameters: the value
  of \<^verbatim>\<open>process.env.TEST_MODE\<close> and the value \<^verbatim>\<open>Date.now()\<close> would return.
  An empty header string is falsy, like an absent one.
\<close>

definition getCurrentTime :: "string option \<Rightarrow> int \<Rightarrow> request option \<Rightarrow> number" where
  "getCurrentTime TEST_MODE dateNow req =
     (let testMode = (TEST_MODE = Some ''1'') in
      case req of
        None \<Rightarrow> Finite dateNow
      | Some r \<Rightarrow>
          (case headers r ''x-test-now-ms'' of
             None \<Rightarrow> Finite dateNow
           | Some h \<Rightarrow>
               if testMode \<and> h \<noteq> [] then
                 (let testTime = parseInt10 h
                  in if testTime \<noteq> NaN \<and> numLess (Finite 0) testTime
                     then testTime else Finite dateNow)
               else Finite dateNow))"

subsection \<open>Identifiers\<close>

text \<open>
  Both read routes test the identifier against \<^verbatim>\<open>/^[0-9a-fA-F]{24}$/\<close>
  before they touch the database.
\<close>

definition isHexDigit :: "char \<Rightarrow> bool" where
  "isHexDigit c =
     (let n = (of_char c :: nat)
      in (48 \<le> n \<and> n \<le> 57) \<or> (97 \<le> n \<and> n \<le> 102) \<or> (65 \<le> n \<and> n \<le> 70))"

definition matchesObjectId :: "string \<Rightarrow> bool" where
  "matchesObjectId s = (length s = 24 \<and> list_all isHexDigit s)"

subsection \<open>The backend\<close>

text \<open>
  The collection is a map from identifiers to documents. Every operation the
  handlers send to it is also appended to \<open>calls\<close>, a history that the
  program itself never reads; it is there to state which routes reach the
  database at all. The database is taken to answer every call: a rejected
  promise from the database, which the handlers turn into a 500 response, is
  not modelled.
\<close>

datatype call =
  FindById string
  | IncViewsUsed string
  | Save string

record backend =
  docs :: "string \<rightharpoonup> paste"
  calls :: "call list"

definition findById :: "string \<Rightarrow> backend \<Rightarrow> paste option \<times> backend" where
  "findById i b = (docs b i, b\<lparr>calls := calls b @ [FindById i]\<rparr>)"

text \<open>
  \<^verbatim>\<open>findByIdAndUpdate(id, { $inc: { viewsUsed: 1 } })\<close>: one atomic update of
  one document, with no condition on the counter; a missing document is left
  missing.
\<close>

definition findByIdAndUpdate_inc :: "string \<Rightarrow> backend \<Rightarrow> backend" where
  "findByIdAndUpdate_inc i b =
     b\<lparr>docs := (case docs b i of
                  None \<Rightarrow> docs b
                | Some p \<Rightarrow> (docs b)(i \<mapsto> p\<lparr>viewsUsed := viewsUsed p + 1\<rparr>)),
       calls := calls b @ [IncViewsUsed i]\<rparr>"

definition save :: "string \<Rightarrow> paste \<Rightarrow> backend \<Rightarrow> backend" where
  "save i p b = b\<lparr>docs := (docs b)(i \<mapsto> p), calls := calls b @ [Save i]\<rparr>"

subsection \<open>Validation of a create request: \<^verbatim>\<open>utils/validation.js\<close>\<close>

text \<open>
  \<^verbatim>\<open>isInt({ min: 1 })\<close> is applied to the value written as a string: it wants
  an optional sign and decimal digits, and the number they write to be at
  least 1. A number is written in digits when it is whole and below
  \<open>10^21\<close>. What passes is used by the handler, and cast by Mongoose, as the
  number \<^verbatim>\<open>Number(value)\<close>: that number is what \<open>isIntMin1\<close> returns.
\<close>

definition signedDigits :: "string \<Rightarrow> int option" where
  "signedDigits s =
     (let ds = (case s of [] \<Rightarrow> []
                | c # cs \<Rightarrow> if c = CHR ''+'' \<or> c = CHR ''-'' then cs else s)
      in if ds \<noteq> [] \<and> list_all isDecimalDigit ds
         then Some ((case s of [] \<Rightarrow> 1 | c # _ \<Rightarrow> if c = CHR ''-'' then - 1 else 1)
                      * digitsToInt ds)
         else None)"

definition isIntMin1 :: "jsvalue \<Rightarrow> number option" where
  "isIntMin1 v =
     (case v of
        JNum n \<Rightarrow>
          (case toDouble n of
             Finite k \<Rightarrow> if \<bar>k\<bar> < 10 ^ 21 \<and> 1 \<le> k then Some (Finite k) else None
           | _ \<Rightarrow> None)
      | JStr s \<Rightarrow>
          (case signedDigits s of
             None \<Rightarrow> None
           | Some n \<Rightarrow> if numLessEq (Finite 1) (toDouble n) then Some (toDouble n) else None)
      | _ \<Rightarrow> None)"

text \<open>
  The chain for \<^verbatim>\<open>content\<close> wants a string that is not empty once trimmed,
  and leaves the trimmed string in the body; the chains for \<^verbatim>\<open>ttl_seconds\<close>
  and \<^verbatim>\<open>max_views\<close> pass an absent field and otherwise want \<^verbatim>\<open>isInt\<close>. The
  last middleware answers 400 when any chain failed, and the handler is not
  reached. \<open>validateCreatePaste\<close> returns the fields that failed, or the body
  as the handler finds it.
\<close>

definition trim :: "string \<Rightarrow> string" where
  "trim s = rev (dropWhile isStrWhiteSpaceChar (rev (dropWhile isStrWhiteSpaceChar s)))"

record create_body =
  body_content :: string
  ttl_seconds :: "number option"
  max_views :: "number option"

definition optionalInt :: "jsvalue \<Rightarrow> (number option) option" where
  "optionalInt v =
     (case v of
        JUndefined \<Rightarrow> Some None
      | _ \<Rightarrow> (case isIntMin1 v of None \<Rightarrow> None | Some k \<Rightarrow> Some (Some k)))"

definition validateCreatePaste :: "raw_body \<Rightarrow> string list + create_body" where
  "validateCreatePaste rb =
     (let c = (case raw_content rb of
                 JStr s \<Rightarrow> if trim s \<noteq> [] then Some (trim s) else None
               | _ \<Rightarrow> None);
          t = optionalInt (raw_ttl_seconds rb);
          m = optionalInt (raw_max_views rb)
      in case (c, t, m) of
           (Some c', Some t', Some m') \<Rightarrow>
             Inr \<lparr>body_content = c', ttl_seconds = t', max_views = m'\<rparr>
         | _ \<Rightarrow>
             Inl ((if c = None then [''content''] else [])
                  @ (if t = None then [''ttl_seconds''] else [])
                  @ (if m = None then [''max_views''] else [])))"

subsection \<open>\<^verbatim>\<open>POST /api/pastes\<close>\<close>

text \<open>
  A number is truthy unless it is 0 or \<^verbatim>\<open>NaN\<close>; \<^verbatim>\<open>undefined\<close> is falsy. So
  \<^verbatim>\<open>max_views || null\<close> keeps a truthy number and turns everything else
  into \<^verbatim>\<open>null\<close>, and \<^verbatim>\<open>if (ttl_seconds)\<close> holds for a truthy number.
\<close>

definition truthy :: "number option \<Rightarrow> bool" where
  "truthy v = (case v of None \<Rightarrow> False | Some n \<Rightarrow> n \<noteq> Finite 0 \<and> n \<noteq> NaN)"

definition baseUrl :: "string option \<Rightarrow> string" where
  "baseUrl BASE_URL =
     (case BASE_URL of
        None \<Rightarrow> ''http://localhost:3000''
      | Some u \<Rightarrow> if u = [] then ''http://localhost:3000'' else u)"

text \<open>
  \<^verbatim>\<open>new Date(v)\<close> is a valid date when \<open>v\<close> is finite and within
  8.64e15 milliseconds of the epoch, and an invalid one (\<^const>\<open>None\<close>)
  otherwise.
\<close>

definition newDate :: "number \<Rightarrow> int option" where
  "newDate v =
     (case v of
        Finite t \<Rightarrow> if \<bar>t\<bar> \<le> 8640000000000000 then Some t else None
      | _ \<Rightarrow> None)"

text \<open>
  The handler, on the body the validation left. \<open>newId\<close> is the \<^verbatim>\<open>_id\<close> that
  Mongoose generates for the new document. \<^verbatim>\<open>paste.save()\<close> validates the
  document first: an invalid date in \<open>createdAt\<close> or \<open>expiresAt\<close> makes it
  reject before anything is sent to the database, and the \<^verbatim>\<open>catch\<close> answers
  500.
\<close>

definition createPaste ::
  "string option \<Rightarrow> string option \<Rightarrow> int \<Rightarrow> string \<Rightarrow> request \<Rightarrow> create_body \<Rightarrow> backend
     \<Rightarrow> response \<times> backend" where
  "createPaste TEST_MODE BASE_URL dateNow newId req bd b =
     (let currentTime = getCurrentTime TEST_MODE dateNow (Some req);
          expiresAt0 =
            (if truthy (ttl_seconds bd)
             then (case ttl_seconds bd of
                     None \<Rightarrow> None
                   | Some t \<Rightarrow> Some (newDate (numAdd currentTime (numMul t (Finite 1000)))))
             else None);
          maxViews0 = (if truthy (max_views bd) then max_views bd else None);
          createdAt0 = newDate currentTime
      in case (createdAt0, expiresAt0) of
           (None, _) \<Rightarrow> (Json 500 (ErrorBody ''Internal server error''), b)
         | (Some c, Some None) \<Rightarrow> (Json 500 (ErrorBody ''Internal server error''), b)
         | (Some c, e) \<Rightarrow>
             (let p = \<lparr>content = body_content bd,
                       createdAt = c,
                       expiresAt = (case e of None \<Rightarrow> None | Some d \<Rightarrow> d),
                       maxViews = maxViews0,
                       viewsUsed = 0\<rparr>;
                  b1 = save newId p b;
                  pasteUrl = baseUrl BASE_URL @ ''/p/'' @ newId
              in (Json 201 (CreatedBody newId pasteUrl), b1)))"

text \<open>The route: the validation middleware, then the handler.\<close>

definition postPastes ::
  "string option \<Rightarrow> string option \<Rightarrow> int \<Rightarrow> string \<Rightarrow> request \<Rightarrow> backend
     \<Rightarrow> response \<times> backend" where
  "postPastes TEST_MODE BASE_URL dateNow newId req b =
     (case validateCreatePaste (body req) of
        Inl failed \<Rightarrow> (Json 400 (ValidationFailed failed), b)
      | Inr bd \<Rightarrow> createPaste TEST_MODE BASE_URL dateNow newId req bd b)"

subsection \<open>\<^verbatim>\<open>GET /api/pastes/:id\<close> and \<^verbatim>\<open>GET /p/:id\<close>\<close>

definition hasExpired :: "paste \<Rightarrow> number \<Rightarrow> bool" where
  "hasExpired p currentTime =
     (case expiresAt p of None \<Rightarrow> False | Some e \<Rightarrow> numLessEq (Finite e) currentTime)"

definition viewLimitReached :: "paste \<Rightarrow> bool" where
  "viewLimitReached p =
     (case maxViews p of None \<Rightarrow> False | Some m \<Rightarrow> numLessEq m (Finite (viewsUsed p)))"

definition remainingViewsOf :: "paste \<Rightarrow> number option" where
  "remainingViewsOf u =
     (case maxViews u of
        None \<Rightarrow> None
      | Some m \<Rightarrow>
          (let remainingViews = numSub m (Finite (viewsUsed u))
           in Some (if numLess remainingViews (Finite 0) then Finite 0 else remainingViews)))"

definition notFoundJson :: response where
  "notFoundJson = Json 404 (ErrorBody ''Paste not found or unavailable'')"

definition serverErrorJson :: response where
  "serverErrorJson = Json 500 (ErrorBody ''Internal server error'')"

text \<open>
  The JSON route. Reading a field of a \<^verbatim>\<open>null\<close> \<open>updatedPaste\<close> throws, and
  the handler's \<^verbatim>\<open>catch\<close> answers 500.
\<close>

definition fetchPaste ::
  "string option \<Rightarrow> int \<Rightarrow> request \<Rightarrow> backend \<Rightarrow> response \<times> backend" where
  "fetchPaste TEST_MODE dateNow req b =
     (let i = params_id req;
          currentTime = getCurrentTime TEST_MODE dateNow (Some req)
      in if \<not> matchesObjectId i then (notFoundJson, b)
         else
           (let (found, b1) = findById i b
            in case found of
                 None \<Rightarrow> (notFoundJson, b1)
               | Some p \<Rightarrow>
                   if hasExpired p currentTime then (notFoundJson, b1)
                   else if viewLimitReached p then (notFoundJson, b1)
                   else
                     (let b2 = findByIdAndUpdate_inc i b1;
                          (updated, b3) = findById i b2
                      in case updated of
                           None \<Rightarrow> (serverErrorJson, b3)
                         | Some u \<Rightarrow>
                             (Json 200 (PasteBody (content u) (remainingViewsOf u) (expiresAt u)),
                              b3))))"

text \<open>The HTML route: the same steps, answered with rendered pages.\<close>

definition viewPaste ::
  "string option \<Rightarrow> int \<Rightarrow> request \<Rightarrow> backend \<Rightarrow> response \<times> backend" where
  "viewPaste TEST_MODE dateNow req b =
     (let i = params_id req;
          currentTime = getCurrentTime TEST_MODE dateNow (Some req)
      in if \<not> matchesObjectId i then (Html 404 Page404, b)
         else
           (let (found, b1) = findById i b
            in case found of
                 None \<Rightarrow> (Html 404 Page404, b1)
               | Some p \<Rightarrow>
                   if hasExpired p currentTime then (Html 404 Page404, b1)
                   else if viewLimitReached p then (Html 404 Page404, b1)
                   else
                     (let b2 = findByIdAndUpdate_inc i b1;
                          (updated, b3) = findById i b2
                      in case updated of
                           None \<Rightarrow> (Html 500 Page500, b3)
                         | Some u \<Rightarrow> (Html 200 (PastePage u (remainingViewsOf u)), b3))))"

subsection \<open>Requests in flight\<close>

text \<open>
  A handler is an \<^verbatim>\<open>async\<close> function: it runs without interruption up to an
  \<^verbatim>\<open>await\<close>, and other requests run while it waits for the database. Each of
  the three database calls of a read is executed by the database as one
  atomic operation, and the code between two calls touches nothing shared.
  So a read in flight is in one of four places: arrived (nothing sent yet),
  past the checks (the first \<^verbatim>\<open>findById\<close> has answered, the increment is
  next), incremented (the second \<^verbatim>\<open>findById\<close> is next), or finished with
  its response. \<open>step\<close> lets one request take its next database call together
  with the code behind it; \<open>run\<close> follows a schedule, a list naming which
  request moves next.
\<close>

datatype route = ApiRoute | ViewRoute

datatype progress =
  Arrived
  | PastChecks
  | Incremented
  | Finished response

record task =
  t_route :: route
  t_req :: request
  t_dateNow :: int
  t_at :: progress

definition unavailable :: "route \<Rightarrow> response" where
  "unavailable rt = (case rt of ApiRoute \<Rightarrow> notFoundJson | ViewRoute \<Rightarrow> Html 404 Page404)"

definition serverError :: "route \<Rightarrow> response" where
  "serverError rt = (case rt of ApiRoute \<Rightarrow> serverErrorJson | ViewRoute \<Rightarrow> Html 500 Page500)"

definition served :: "route \<Rightarrow> paste \<Rightarrow> response" where
  "served rt u =
     (case rt of
        ApiRoute \<Rightarrow> Json 200 (PasteBody (content u) (remainingViewsOf u) (expiresAt u))
      | ViewRoute \<Rightarrow> Html 200 (PastePage u (remainingViewsOf u)))"

definition step :: "string option \<Rightarrow> task \<Rightarrow> backend \<Rightarrow> task \<times> backend" where
  "step TEST_MODE t b =
     (let i = params_id (t_req t); rt = t_route t
      in case t_at t of
           Arrived \<Rightarrow>
             (let currentTime = getCurrentTime TEST_MODE (t_dateNow t) (Some (t_req t))
              in if \<not> matchesObjectId i then (t\<lparr>t_at := Finished (unavailable rt)\<rparr>, b)
                 else
                   (let (found, b1) = findById i b
                    in case found of
                         None \<Rightarrow> (t\<lparr>t_at := Finished (unavailable rt)\<rparr>, b1)
                       | Some p \<Rightarrow>
                           if hasExpired p currentTime
                           then (t\<lparr>t_at := Finished (unavailable rt)\<rparr>, b1)
                           else if viewLimitReached p
                           then (t\<lparr>t_at := Finished (unavailable rt)\<rparr>, b1)
                           else (t\<lparr>t_at := PastChecks\<rparr>, b1)))
         | PastChecks \<Rightarrow> (t\<lparr>t_at := Incremented\<rparr>, findByIdAndUpdate_inc i b)
         | Incremented \<Rightarrow>
             (let (updated, b3) = findById i b
              in case updated of
                   None \<Rightarrow> (t\<lparr>t_at := Finished (serverError rt)\<rparr>, b3)
                 | Some u \<Rightarrow> (t\<lparr>t_at := Finished (served rt u)\<rparr>, b3))
         | Finished r \<Rightarrow> (t, b))"

fun run :: "string option \<Rightarrow> nat list \<Rightarrow> task list \<times> backend \<Rightarrow> task list \<times> backend" where
  "run TEST_MODE [] cfg = cfg"
| "run TEST_MODE (k # sched) (ts, b) =
     (if k < length ts
      then (let (t', b') = step TEST_MODE (ts ! k) b
            in run TEST_MODE sched (ts[k := t'], b'))
      else run TEST_MODE sched (ts, b))"

text \<open>Reads one after the other, each finished before the next begins.\<close>

fun fetchMany ::
  "string option \<Rightarrow> int \<Rightarrow> request \<Rightarrow> nat \<Rightarrow> backend \<Rightarrow> response list \<times> backend" where
  "fetchMany TEST_MODE dateNow req 0 b = ([], b)"
| "fetchMany TEST_MODE dateNow req (Suc n) b =
     (let (r, b1) = fetchPaste TEST_MODE dateNow req b;
          (rs, b2) = fetchMany TEST_MODE dateNow req n b1
      in (r # rs, b2))"

subsection \<open>Sample values\<close>

text \<open>A well-formed identifier, a read request for it, and a collection holding one paste.\<close>

definition pasteId :: string where
  "pasteId = ''507f1f77bcf86cd799439011''"

definition noBody :: raw_body where
  "noBody = \<lparr>raw_content = JUndefined, raw_ttl_seconds = JUndefined, raw_max_views = JUndefined\<rparr>"

definition getRequest :: "string \<Rightarrow> request" where
  "getRequest i = \<lparr>headers = Map.empty, params_id = i, body = noBody\<rparr>"

definition storing :: "paste \<Rightarrow> backend" where
  "storing p = \<lparr>docs = [pasteId \<mapsto> p], calls = []\<rparr>"

definition samplePaste :: "int option \<Rightarrow> number option \<Rightarrow> int \<Rightarrow> paste" where
  "samplePaste e m k =
     \<lparr>content = ''secret'', createdAt = 1000, expiresAt = e, maxViews = m, viewsUsed = k\<rparr>"

text \<open>
  Why a read is refused, read off the handler's four early returns in their
  order: the identifier fails the pattern; no document has it; the document's
  expiry instant has come; its views are used up.
\<close>

datatype cause = Malformed | Absent | Expired | Exhausted

definition failsFor :: "cause \<Rightarrow> string option \<Rightarrow> int \<Rightarrow> request \<Rightarrow> backend \<Rightarrow> bool" where
  "failsFor c tm dn req b =
     (let i = params_id req; currentTime = getCurrentTime tm dn (Some req)
      in case c of
           Malformed \<Rightarrow> \<not> matchesObjectId i
         | Absent \<Rightarrow> matchesObjectId i \<and> docs b i = None
         | Expired \<Rightarrow>
             matchesObjectId i \<and>
             (case docs b i of None \<Rightarrow> False | Some p \<Rightarrow> hasExpired p currentTime)
         | Exhausted \<Rightarrow>
             matchesObjectId i \<and>
             (case docs b i of
                None \<Rightarrow> False
              | Some p \<Rightarrow> \<not> hasExpired p currentTime \<and> viewLimitReached p))"

definition postRequest :: "jsvalue \<Rightarrow> jsvalue \<Rightarrow> jsvalue \<Rightarrow> request" where
  "postRequest c ttl mv =
     \<lparr>headers = Map.empty, params_id = [],
      body = \<lparr>raw_content = c, raw_ttl_seconds = ttl, raw_max_views = mv\<rparr>\<rparr>"

definition withTestNow :: "string \<Rightarrow> request" where
  "withTestNow h = \<lparr>headers = [''x-test-now-ms'' \<mapsto> h], params_id = pasteId, body = noBody\<rparr>"

definition emptyBackend :: backend where
  "emptyBackend = \<lparr>docs = Map.empty, calls = []\<rparr>"

definition arrived :: "route \<Rightarrow> request \<Rightarrow> int \<Rightarrow> task" where
  "arrived rt req dn = \<lparr>t_route = rt, t_req = req, t_dateNow = dn, t_at = Arrived\<rparr>"

definition pastChecks :: "route \<Rightarrow> request \<Rightarrow> int \<Rightarrow> task" where
  "pastChecks rt req dn = \<lparr>t_route = rt, t_req = req, t_dateNow = dn, t_at = PastChecks\<rparr>"

text \<open>The collection after one create request with \<^verbatim>\<open>max_views: 1\<close> at instant 1000.\<close>

definition oneViewBackend :: backend where
  "oneViewBackend =
     snd (postPastes None None 1000 pasteId
            (postRequest (JStr ''secret'') JUndefined (JNum 1)) emptyBackend)"

text \<open>A paste is within its budget when its counter has not passed \<open>maxViews\<close>.\<close>

definition withinBudget :: "paste \<Rightarrow> bool" where
  "withinBudget p =
     (case maxViews p of None \<Rightarrow> True | Some m \<Rightarrow> numLessEq (Finite (viewsUsed p)) m)"

section \<open>Properties\<close>

subsection \<open>Numbers in the exact range\<close>

lemma toDouble_exact: "\<bar>n\<bar> \<le> 2 ^ 53 \<Longrightarrow> toDouble n = Finite n"
  by (auto simp: toDouble_def roundMagnitude_def)

lemma toDouble_not_NaN: "toDouble n \<noteq> NaN"
  by (simp add: toDouble_def split: option.splits)

lemma toDouble_zero: "toDouble 0 = Finite 0"
  by (simp add: toDouble_exact)

lemma numSub_self: "numSub (Finite a) (Finite a) = Finite 0"
  by (simp add: numSub_def toDouble_zero)

lemma numSub_small:
  "\<bar>a - b\<bar> \<le> 2 ^ 53 \<Longrightarrow> numSub (Finite a) (Finite b) = Finite (a - b)"
  by (simp add: numSub_def toDouble_exact)

lemma getCurrentTime_not_NaN: "getCurrentTime tm dn req \<noteq> NaN"
  by (simp add: getCurrentTime_def Let_def split: option.splits)

subsection \<open>The read handlers, case by case\<close>

lemma matchesObjectId_pasteId: "matchesObjectId pasteId"
  by (simp add: matchesObjectId_def pasteId_def isHexDigit_def)

lemma fetchPaste_malformed:
  "\<not> matchesObjectId (params_id req) \<Longrightarrow> fetchPaste tm dn req b = (notFoundJson, b)"
  by (simp add: fetchPaste_def)

lemma fetchPaste_absent:
  "matchesObjectId (params_id req) \<Longrightarrow> docs b (params_id req) = None \<Longrightarrow>
   fetchPaste tm dn req b = (notFoundJson, b\<lparr>calls := calls b @ [FindById (params_id req)]\<rparr>)"
  by (simp add: fetchPaste_def findById_def Let_def)

lemma fetchPaste_expired:
  "matchesObjectId (params_id req) \<Longrightarrow> docs b (params_id req) = Some p \<Longrightarrow>
   hasExpired p (getCurrentTime tm dn (Some req)) \<Longrightarrow>
   fetchPaste tm dn req b = (notFoundJson, b\<lparr>calls := calls b @ [FindById (params_id req)]\<rparr>)"
  by (simp add: fetchPaste_def findById_def Let_def)

lemma fetchPaste_exhausted:
  "matchesObjectId (params_id req) \<Longrightarrow> docs b (params_id req) = Some p \<Longrightarrow>
   viewLimitReached p \<Longrightarrow>
   fetchPaste tm dn req b = (notFoundJson, b\<lparr>calls := calls b @ [FindById (params_id req)]\<rparr>)"
  by (simp add: fetchPaste_def findById_def Let_def)

lemma fetchPaste_live:
  "matchesObjectId (params_id req) \<Longrightarrow> docs b (params_id req) = Some p \<Longrightarrow>
   \<not> hasExpired p (getCurrentTime tm dn (Some req)) \<Longrightarrow> \<not> viewLimitReached p \<Longrightarrow>
   fetchPaste tm dn req b =
     (Json 200 (PasteBody (content p) (remainingViewsOf (p\<lparr>viewsUsed := viewsUsed p + 1\<rparr>)) (expiresAt p)),
      b\<lparr>docs := (docs b)(params_id req \<mapsto> p\<lparr>viewsUsed := viewsUsed p + 1\<rparr>),
        calls := calls b @ [FindById (params_id req), IncViewsUsed (params_id req), FindById (params_id req)]\<rparr>)"
  by (simp add: fetchPaste_def findById_def findByIdAndUpdate_inc_def Let_def)

lemma viewPaste_expired:
  "matchesObjectId (params_id req) \<Longrightarrow> docs b (params_id req) = Some p \<Longrightarrow>
   hasExpired p (getCurrentTime tm dn (Some req)) \<Longrightarrow>
   viewPaste tm dn req b = (Html 404 Page404, b\<lparr>calls := calls b @ [FindById (params_id req)]\<rparr>)"
  by (simp add: viewPaste_def findById_def Let_def)

lemma viewPaste_live:
  "matchesObjectId (params_id req) \<Longrightarrow> docs b (params_id req) = Some p \<Longrightarrow>
   \<not> hasExpired p (getCurrentTime tm dn (Some req)) \<Longrightarrow> \<not> viewLimitReached p \<Longrightarrow>
   viewPaste tm dn req b =
     (Html 200 (PastePage (p\<lparr>viewsUsed := viewsUsed p + 1\<rparr>) (remainingViewsOf (p\<lparr>viewsUsed := viewsUsed p + 1\<rparr>))),
      b\<lparr>docs := (docs b)(params_id req \<mapsto> p\<lparr>viewsUsed := viewsUsed p + 1\<rparr>),
        calls := calls b @ [FindById (params_id req), IncViewsUsed (params_id req), FindById (params_id req)]\<rparr>)"
  by (simp add: viewPaste_def findById_def findByIdAndUpdate_inc_def Let_def)

lemma fetchPaste_outcomes:
  assumes run: "fetchPaste tm dn req b = (r, b')"
  shows "(r = notFoundJson \<and> docs b' = docs b) \<or>
   (\<exists>p. docs b (params_id req) = Some p \<and> matchesObjectId (params_id req) \<and>
        \<not> hasExpired p (getCurrentTime tm dn (Some req)) \<and> \<not> viewLimitReached p \<and>
        r = Json 200 (PasteBody (content p) (remainingViewsOf (p\<lparr>viewsUsed := viewsUsed p + 1\<rparr>)) (expiresAt p)) \<and>
        docs b' = (docs b)(params_id req \<mapsto> p\<lparr>viewsUsed := viewsUsed p + 1\<rparr>))"
proof (cases "matchesObjectId (params_id req)")
  case False
  then show ?thesis using run fetchPaste_malformed[of req tm dn b] by auto
next
  case valid: True
  show ?thesis
  proof (cases "docs b (params_id req)")
    case None
    then show ?thesis using run fetchPaste_absent[OF valid, of b tm dn] by auto
  next
    case (Some p)
    show ?thesis
    proof (cases "hasExpired p (getCurrentTime tm dn (Some req))")
      case True
      then show ?thesis using run fetchPaste_expired[OF valid Some, of tm dn] by auto
    next
      case live: False
      show ?thesis
      proof (cases "viewLimitReached p")
        case True
        then show ?thesis using run fetchPaste_exhausted[OF valid Some, of tm dn] by auto
      next
        case False
        from run fetchPaste_live[OF valid Some live False]
        have "r = Json 200 (PasteBody (content p)
                  (remainingViewsOf (p\<lparr>viewsUsed := viewsUsed p + 1\<rparr>)) (expiresAt p))"
          and "docs b' = (docs b)(params_id req \<mapsto> p\<lparr>viewsUsed := viewsUsed p + 1\<rparr>)"
          by auto
        with Some valid live False show ?thesis by blast
      qed
    qed
  qed
qed

subsection \<open>The last view of a budget\<close>

text \<open>
  Claim C3. A paste with \<open>maxViews = N\<close>, \<open>N\<close> positive, that has not expired:
  a read that finds \<open>viewsUsed = N - 1\<close> is served (and reports 0 remaining
  views); a read that finds \<open>viewsUsed = N\<close> is answered 404.
\<close>

theorem last_view_served_next_refused:
  assumes "matchesObjectId (params_id req)"
    and "docs b (params_id req) = Some p"
    and "maxViews p = Some (Finite N)" and "0 < N"
    and "\<not> hasExpired p (getCurrentTime tm dn (Some req))"
  shows "(viewsUsed p = N - 1 \<longrightarrow>
            fst (fetchPaste tm dn req b)
              = Json 200 (PasteBody (content p) (Some (Finite 0)) (expiresAt p)))
       \<and> (viewsUsed p = N \<longrightarrow> fst (fetchPaste tm dn req b) = notFoundJson)"
proof (intro conjI impI)
  assume k: "viewsUsed p = N - 1"
  with assms(3) have "\<not> viewLimitReached p" by (simp add: viewLimitReached_def)
  from fetchPaste_live[OF assms(1) assms(2) assms(5) this] k assms(3)
  show "fst (fetchPaste tm dn req b)
          = Json 200 (PasteBody (content p) (Some (Finite 0)) (expiresAt p))"
    by (simp add: remainingViewsOf_def numSub_self)
next
  assume "viewsUsed p = N"
  with assms(3) have "viewLimitReached p" by (simp add: viewLimitReached_def)
  from fetchPaste_exhausted[OF assms(1) assms(2) this]
  show "fst (fetchPaste tm dn req b) = notFoundJson" by simp
qed

theorem last_view_served_next_refused_witness:
  "fst (fetchPaste None 2000 (getRequest pasteId) (storing (samplePaste None (Some (Finite 3)) 2)))
     = Json 200 (PasteBody ''secret'' (Some (Finite 0)) None)
   \<and> fst (fetchPaste None 2000 (getRequest pasteId) (storing (samplePaste None (Some (Finite 3)) 3)))
     = notFoundJson"
proof -
  have v: "matchesObjectId (params_id (getRequest pasteId))"
    by (simp add: getRequest_def matchesObjectId_pasteId)
  have d2: "docs (storing (samplePaste None (Some (Finite 3)) 2)) (params_id (getRequest pasteId))
              = Some (samplePaste None (Some (Finite 3)) 2)"
    by (simp add: storing_def getRequest_def)
  have d3: "docs (storing (samplePaste None (Some (Finite 3)) 3)) (params_id (getRequest pasteId))
              = Some (samplePaste None (Some (Finite 3)) 3)"
    by (simp add: storing_def getRequest_def)
  have m2: "maxViews (samplePaste None (Some (Finite 3)) 2) = Some (Finite 3)"
    and m3: "maxViews (samplePaste None (Some (Finite 3)) 3) = Some (Finite 3)"
    by (simp_all add: samplePaste_def)
  have pos: "(0::int) < 3" by simp
  have e2: "\<not> hasExpired (samplePaste None (Some (Finite 3)) 2)
              (getCurrentTime None 2000 (Some (getRequest pasteId)))"
    and e3: "\<not> hasExpired (samplePaste None (Some (Finite 3)) 3)
              (getCurrentTime None 2000 (Some (getRequest pasteId)))"
    by (simp_all add: hasExpired_def samplePaste_def)
  show ?thesis
    using last_view_served_next_refused[OF v d2 m2 pos e2]
          last_view_served_next_refused[OF v d3 m3 pos e3]
    by (simp add: samplePaste_def)
qed

subsection \<open>Expiry\<close>

text \<open>
  Claim C4. A paste with an expiry instant \<open>e\<close>, read at instant \<open>now\<close>: when
  \<open>e \<le> now\<close> (the instant \<open>e\<close> itself included) both routes answer 404; when
  \<open>now < e\<close> the paste is not held expired, and both routes serve it as long
  as views remain. The comparisons are JavaScript's, \<open>now\<close> being a number:
  on finite instants they are those of the integers, and an infinite \<open>now\<close>
  is after every \<open>e\<close>.
\<close>

theorem expiry_at_the_instant:
  assumes "matchesObjectId (params_id req)"
    and "docs b (params_id req) = Some p"
    and "expiresAt p = Some e"
    and "now = getCurrentTime tm dn (Some req)"
  shows "(numLessEq (Finite e) now \<longrightarrow>
            fst (fetchPaste tm dn req b) = notFoundJson \<and>
            fst (viewPaste tm dn req b) = Html 404 Page404)
       \<and> (numLess now (Finite e) \<longrightarrow> \<not> viewLimitReached p \<longrightarrow>
            fst (fetchPaste tm dn req b) =
              Json 200 (PasteBody (content p)
                (remainingViewsOf (p\<lparr>viewsUsed := viewsUsed p + 1\<rparr>)) (Some e)) \<and>
            fst (viewPaste tm dn req b) =
              Html 200 (PastePage (p\<lparr>viewsUsed := viewsUsed p + 1\<rparr>)
                (remainingViewsOf (p\<lparr>viewsUsed := viewsUsed p + 1\<rparr>))))
       \<and> (numLessEq (Finite e) now \<or> numLess now (Finite e))
       \<and> (\<forall>t. now = Finite t \<longrightarrow>
             numLessEq (Finite e) now = (e \<le> t) \<and> numLess now (Finite e) = (t < e))"
proof (intro conjI impI allI)
  assume "numLessEq (Finite e) now"
  with assms(3,4) have x: "hasExpired p (getCurrentTime tm dn (Some req))"
    by (simp add: hasExpired_def)
  show "fst (fetchPaste tm dn req b) = notFoundJson"
    using fetchPaste_expired[OF assms(1,2) x] by simp
  show "fst (viewPaste tm dn req b) = Html 404 Page404"
    using viewPaste_expired[OF assms(1,2) x] by simp
next
  assume early: "numLess now (Finite e)" and budget: "\<not> viewLimitReached p"
  have "\<not> numLessEq (Finite e) now"
    using early by (cases now) simp_all
  with assms(3,4) have x: "\<not> hasExpired p (getCurrentTime tm dn (Some req))"
    by (simp add: hasExpired_def)
  show "fst (fetchPaste tm dn req b) =
          Json 200 (PasteBody (content p)
            (remainingViewsOf (p\<lparr>viewsUsed := viewsUsed p + 1\<rparr>)) (Some e))"
    using fetchPaste_live[OF assms(1,2) x budget] assms(3) by simp
  show "fst (viewPaste tm dn req b) =
          Html 200 (PastePage (p\<lparr>viewsUsed := viewsUsed p + 1\<rparr>)
            (remainingViewsOf (p\<lparr>viewsUsed := viewsUsed p + 1\<rparr>)))"
    using viewPaste_live[OF assms(1,2) x budget] by simp
next
  have "now \<noteq> NaN" using assms(4) getCurrentTime_not_NaN by simp
  then show "numLessEq (Finite e) now \<or> numLess now (Finite e)"
    by (cases now) auto
next
  fix t assume "now = Finite t"
  then show "numLessEq (Finite e) now = (e \<le> t)" by simp
next
  fix t assume "now = Finite t"
  then show "numLess now (Finite e) = (t < e)" by simp
qed

theorem expiry_at_the_instant_witness:
  "fst (fetchPaste None 61000 (getRequest pasteId) (storing (samplePaste (Some 61000) None 0)))
     = notFoundJson
   \<and> fst (viewPaste None 61000 (getRequest pasteId) (storing (samplePaste (Some 61000) None 0)))
     = Html 404 Page404
   \<and> fst (fetchPaste None 60999 (getRequest pasteId) (storing (samplePaste (Some 61000) None 0)))
     = Json 200 (PasteBody ''secret'' None (Some 61000))
   \<and> fst (viewPaste None 60999 (getRequest pasteId) (storing (samplePaste (Some 61000) None 0)))
     = Html 200 (PastePage (samplePaste (Some 61000) None 1) None)"
proof -
  let ?req = "getRequest pasteId" and ?p = "samplePaste (Some 61000) None 0"
  have v: "matchesObjectId (params_id ?req)"
    by (simp add: getRequest_def matchesObjectId_pasteId)
  have d: "docs (storing ?p) (params_id ?req) = Some ?p"
    by (simp add: storing_def getRequest_def)
  have e: "expiresAt ?p = Some 61000"
    by (simp add: samplePaste_def)
  have late: "Finite 61000 = getCurrentTime None 61000 (Some ?req)"
    and early: "Finite 60999 = getCurrentTime None 60999 (Some ?req)"
    by (simp_all add: getCurrentTime_def getRequest_def)
  have budget: "\<not> viewLimitReached ?p"
    by (simp add: viewLimitReached_def samplePaste_def)
  show ?thesis
    using expiry_at_the_instant[OF v d e late] expiry_at_the_instant[OF v d e early] budget
    by (simp add: samplePaste_def remainingViewsOf_def)
qed

subsection \<open>A refused read writes nothing\<close>

text \<open>
  Claim C5. When a read is answered with the 404 response, the collection
  after it is the collection before it; when it is answered 200, the one
  change is that the paste read has \<open>viewsUsed\<close> one higher.
\<close>

theorem unavailable_changes_nothing:
  assumes "fetchPaste tm dn req b = (r, b')"
  shows "(r = notFoundJson \<longrightarrow> docs b' = docs b)
       \<and> (\<forall>c rem ex. r = Json 200 (PasteBody c rem ex) \<longrightarrow>
             (\<exists>p. docs b (params_id req) = Some p \<and>
                  docs b' = (docs b)(params_id req \<mapsto> p\<lparr>viewsUsed := viewsUsed p + 1\<rparr>)))"
  using fetchPaste_outcomes[OF assms] by (auto simp: notFoundJson_def)

theorem unavailable_changes_nothing_witness:
  "docs (snd (fetchPaste None 2000 (getRequest pasteId) (storing (samplePaste None (Some (Finite 3)) 3))))
     = docs (storing (samplePaste None (Some (Finite 3)) 3))
   \<and> docs (snd (fetchPaste None 2000 (getRequest pasteId) (storing (samplePaste None (Some (Finite 3)) 2))))
     = (docs (storing (samplePaste None (Some (Finite 3)) 2)))(pasteId \<mapsto> samplePaste None (Some (Finite 3)) 3)"
proof -
  let ?req = "getRequest pasteId"
  have v: "matchesObjectId (params_id ?req)"
    by (simp add: getRequest_def matchesObjectId_pasteId)
  have r3: "fetchPaste None 2000 ?req (storing (samplePaste None (Some (Finite 3)) 3))
      = (notFoundJson, snd (fetchPaste None 2000 ?req (storing (samplePaste None (Some (Finite 3)) 3))))"
    using fetchPaste_exhausted[OF v, of "storing (samplePaste None (Some (Finite 3)) 3)" "samplePaste None (Some (Finite 3)) 3" None 2000]
    by (simp add: storing_def getRequest_def viewLimitReached_def samplePaste_def)
  have r2: "fetchPaste None 2000 ?req (storing (samplePaste None (Some (Finite 3)) 2))
      = (Json 200 (PasteBody ''secret'' (Some (Finite 0)) None),
         snd (fetchPaste None 2000 ?req (storing (samplePaste None (Some (Finite 3)) 2))))"
    using fetchPaste_live[OF v, of "storing (samplePaste None (Some (Finite 3)) 2)" "samplePaste None (Some (Finite 3)) 2" None 2000]
    by (simp add: storing_def getRequest_def viewLimitReached_def samplePaste_def hasExpired_def
        remainingViewsOf_def numSub_small)
  show ?thesis
    using unavailable_changes_nothing[OF r3] unavailable_changes_nothing[OF r2]
    by (simp add: storing_def samplePaste_def getRequest_def)
qed


subsection \<open>One answer for every refusal\<close>

lemma viewPaste_malformed:
  "\<not> matchesObjectId (params_id req) \<Longrightarrow> viewPaste tm dn req b = (Html 404 Page404, b)"
  by (simp add: viewPaste_def)

lemma failsFor_notFound:
  assumes "failsFor c tm dn req b"
  shows "fst (fetchPaste tm dn req b) = notFoundJson"
proof (cases c)
  case Malformed
  with assms show ?thesis
    using fetchPaste_malformed[of req tm dn b] by (simp add: failsFor_def Let_def)
next
  case Absent
  with assms show ?thesis
    using fetchPaste_absent[of req b tm dn] by (simp add: failsFor_def Let_def)
next
  case Expired
  with assms obtain p where "matchesObjectId (params_id req)" "docs b (params_id req) = Some p"
    "hasExpired p (getCurrentTime tm dn (Some req))"
    by (auto simp: failsFor_def Let_def split: option.splits)
  then show ?thesis using fetchPaste_expired[of req b p tm dn] by simp
next
  case Exhausted
  with assms obtain p where "matchesObjectId (params_id req)" "docs b (params_id req) = Some p"
    "viewLimitReached p"
    by (auto simp: failsFor_def Let_def split: option.splits)
  then show ?thesis using fetchPaste_exhausted[of req b p tm dn] by simp
qed

text \<open>
  Claim C6. Two reads that are refused, each for any of the causes (no such
  paste, expired, views used up, and the malformed identifier as well), get
  the same response: the status and the body are equal, whatever the
  identifiers, the instants and the collections were.
\<close>

theorem refusals_look_alike:
  assumes "failsFor c1 tm1 dn1 req1 b1" and "failsFor c2 tm2 dn2 req2 b2"
  shows "fst (fetchPaste tm1 dn1 req1 b1) = fst (fetchPaste tm2 dn2 req2 b2)"
  using failsFor_notFound[OF assms(1)] failsFor_notFound[OF assms(2)] by simp

theorem refusals_look_alike_witness:
  "fst (fetchPaste None 2000 (getRequest pasteId) emptyBackend)
     = fst (fetchPaste None 61000 (getRequest pasteId) (storing (samplePaste (Some 61000) None 0)))
   \<and> fst (fetchPaste None 61000 (getRequest pasteId) (storing (samplePaste (Some 61000) None 0)))
     = fst (fetchPaste None 2000 (getRequest pasteId) (storing (samplePaste None (Some (Finite 3)) 3)))
   \<and> fst (fetchPaste None 2000 (getRequest pasteId) (storing (samplePaste None (Some (Finite 3)) 3)))
     = fst (fetchPaste None 2000 (getRequest ''no-such-paste'') emptyBackend)"
proof -
  have a: "failsFor Absent None 2000 (getRequest pasteId) emptyBackend"
    by (simp add: failsFor_def Let_def getRequest_def matchesObjectId_pasteId emptyBackend_def)
  have x: "failsFor Expired None 61000 (getRequest pasteId) (storing (samplePaste (Some 61000) None 0))"
    by (simp add: failsFor_def Let_def getRequest_def matchesObjectId_pasteId storing_def samplePaste_def
        hasExpired_def getCurrentTime_def)
  have u: "failsFor Exhausted None 2000 (getRequest pasteId) (storing (samplePaste None (Some (Finite 3)) 3))"
    by (simp add: failsFor_def Let_def getRequest_def matchesObjectId_pasteId storing_def samplePaste_def
        hasExpired_def viewLimitReached_def getCurrentTime_def)
  have m: "failsFor Malformed None 2000 (getRequest ''no-such-paste'') emptyBackend"
    by (simp add: failsFor_def Let_def getRequest_def matchesObjectId_def)
  show ?thesis
    using refusals_look_alike[OF a x] refusals_look_alike[OF x u] refusals_look_alike[OF u m]
    by simp
qed

subsection \<open>Malformed identifiers\<close>

text \<open>
  Claim C9. For an identifier that is not 24 hexadecimal digits, both read
  routes answer 404 and hand back the backend as it was: no document read or
  written, and no call recorded.
\<close>

theorem malformed_id_never_reaches_backend:
  assumes "\<not> matchesObjectId (params_id req)"
  shows "fetchPaste tm dn req b = (notFoundJson, b)
       \<and> viewPaste tm dn req b = (Html 404 Page404, b)
       \<and> calls (snd (fetchPaste tm dn req b)) = calls b
       \<and> calls (snd (viewPaste tm dn req b)) = calls b"
  using fetchPaste_malformed[OF assms, of tm dn b] viewPaste_malformed[OF assms, of tm dn b]
  by simp

theorem malformed_id_never_reaches_backend_witness:
  "fetchPaste None 2000 (getRequest ''no-such-paste'') oneViewBackend = (notFoundJson, oneViewBackend)
   \<and> viewPaste None 2000 (getRequest ''no-such-paste'') oneViewBackend = (Html 404 Page404, oneViewBackend)
   \<and> calls (snd (fetchPaste None 2000 (getRequest ''no-such-paste'') oneViewBackend)) = calls oneViewBackend
   \<and> calls (snd (viewPaste None 2000 (getRequest ''no-such-paste'') oneViewBackend)) = calls oneViewBackend"
proof -
  have m: "\<not> matchesObjectId (params_id (getRequest ''no-such-paste''))"
    by (simp add: getRequest_def matchesObjectId_def)
  show ?thesis
    using malformed_id_never_reaches_backend[OF m, of None 2000 oneViewBackend] by simp
qed



subsection \<open>The clock\<close>

lemma parseInt10_numeral:
  assumes "ds \<noteq> []" and "list_all isDecimalDigit ds"
    and "case rest of [] \<Rightarrow> True | c # _ \<Rightarrow> \<not> isDecimalDigit c"
  shows "parseInt10 (ds @ rest) = toDouble (digitsToInt ds)"
proof -
  from assms(1) obtain d ds' where ds: "ds = d # ds'" by (cases ds) auto
  with assms(2) have d: "isDecimalDigit d" by simp
  then have nw: "\<not> isStrWhiteSpaceChar d" and ns: "d \<noteq> CHR ''+''" "d \<noteq> CHR ''-''"
    by (auto simp: isDecimalDigit_def isStrWhiteSpaceChar_def)
  have tw: "takeWhile isDecimalDigit rest = []"
    using assms(3) by (cases rest) simp_all
  have all: "\<And>x. x \<in> set ds \<Longrightarrow> isDecimalDigit x"
    using assms(2) by (simp add: list_all_iff)
  have "takeWhile isDecimalDigit (ds @ rest) = ds @ takeWhile isDecimalDigit rest"
    by (rule takeWhile_append2) (rule all)
  with tw have "takeWhile isDecimalDigit (ds @ rest) = ds" by simp
  then show ?thesis
    using ds nw ns assms(1) by (simp add: parseInt10_def)
qed

lemma parseInt10_rounds:
  "parseInt10 ''9007199254740993'' = Finite 9007199254740992"
  by (simp add: parseInt10_def isStrWhiteSpaceChar_def isDecimalDigit_def digitValue_def
      digitsToInt_def toDouble_def roundMagnitude_def bitLength.simps Let_def)

lemma getCurrentTime_real_time:
  "tm \<noteq> Some ''1'' \<or> req = None \<or>
     (\<exists>r. req = Some r \<and>
        (headers r ''x-test-now-ms'' = None \<or>
         (\<exists>h. headers r ''x-test-now-ms'' = Some h \<and> \<not> numLess (Finite 0) (parseInt10 h))))
   \<Longrightarrow> getCurrentTime tm dn req = Finite dn"
  by (auto simp: getCurrentTime_def Let_def split: option.splits)

lemma getCurrentTime_override:
  assumes "tm = Some ''1''" and "headers r ''x-test-now-ms'' = Some h"
    and pos: "numLess (Finite 0) (parseInt10 h)"
  shows "getCurrentTime tm dn (Some r) = parseInt10 h"
proof -
  have nn: "parseInt10 h \<noteq> NaN"
    using pos by (cases "parseInt10 h") simp_all
  then have "h \<noteq> []"
    by (auto simp: parseInt10_def)
  with assms nn show ?thesis
    by (simp add: getCurrentTime_def Let_def)
qed

text \<open>
  Claim C8. The header \<^verbatim>\<open>12abc\<close> is not a number. In test mode the clock,
  after \<^verbatim>\<open>parseInt\<close> and the \<^verbatim>\<open>isNaN\<close> test meant to validate it, answers 12
  for it and not the real time, here 1000.
\<close>

theorem clock_accepts_trailing_text:
  "\<not> list_all isDecimalDigit ''12abc''
   \<and> getCurrentTime (Some ''1'') 1000 (Some (withTestNow ''12abc'')) = Finite 12
   \<and> getCurrentTime (Some ''1'') 1000 (Some (withTestNow ''12abc'')) \<noteq> Finite 1000"
  by (simp add: getCurrentTime_def withTestNow_def parseInt10_def isStrWhiteSpaceChar_def
      isDecimalDigit_def digitValue_def digitsToInt_def toDouble_exact Let_def)


subsection \<open>Creating a paste\<close>

lemma isIntMin1_at_least_1:
  assumes "isIntMin1 v = Some k"
  shows "numLessEq (Finite 1) k"
proof (cases v)
  case (JNum n)
  show ?thesis
  proof (cases "toDouble n")
    case (Finite x)
    have le: "\<And>y. 1 \<le> y \<Longrightarrow> numLessEq (Finite 1) (Finite y)" by simp
    from assms JNum Finite have "k = Finite x" and "1 \<le> x"
      by (simp_all add: isIntMin1_def split: if_splits)
    then show ?thesis using le by simp
  qed (use assms JNum in \<open>simp_all add: isIntMin1_def\<close>)
next
  case (JStr s)
  with assms show ?thesis
    by (auto simp: isIntMin1_def split: option.splits if_splits)
qed (use assms in \<open>simp_all add: isIntMin1_def\<close>)

lemma validate_max_views_failed:
  "optionalInt (raw_max_views rb) = None \<Longrightarrow>
   \<exists>fs. validateCreatePaste rb = Inl fs \<and> ''max_views'' \<in> set fs"
  by (simp add: validateCreatePaste_def Let_def split: option.splits jsvalue.splits)

lemma optionalInt_at_least_1: "optionalInt v = Some (Some k) \<Longrightarrow> numLessEq (Finite 1) k"
  by (auto simp: optionalInt_def dest: isIntMin1_at_least_1 split: jsvalue.splits option.splits)

lemma optionalInt_undefined: "optionalInt v = Some None \<longleftrightarrow> v = JUndefined"
  by (auto simp: optionalInt_def split: jsvalue.splits option.splits)

lemma isIntMin1_zero: "isIntMin1 (JNum 0) = None" "isIntMin1 (JStr ''0'') = None"
  by (simp_all add: isIntMin1_def toDouble_exact signedDigits_def isDecimalDigit_def
      digitsToInt_def digitValue_def)

lemma validated_max_views:
  assumes "validateCreatePaste rb = Inr bd"
  shows "(max_views bd = None \<longleftrightarrow> raw_max_views rb = JUndefined)
       \<and> (\<forall>k. max_views bd = Some k \<longrightarrow> numLessEq (Finite 1) k)"
proof -
  from assms have m: "optionalInt (raw_max_views rb) = Some (max_views bd)"
    by (auto simp: validateCreatePaste_def Let_def split: option.splits)
  show ?thesis
    using m optionalInt_undefined[of "raw_max_views rb"] optionalInt_at_least_1[of "raw_max_views rb"]
    by (cases "max_views bd") auto
qed

lemma truthy_at_least_1: "numLessEq (Finite 1) k \<Longrightarrow> truthy (Some k)"
  by (cases k) (auto simp: truthy_def)

lemma postPastes_refused:
  "validateCreatePaste (body req) = Inl fs \<Longrightarrow>
   postPastes tm bu dn newId req b = (Json 400 (ValidationFailed fs), b)"
  by (simp add: postPastes_def)

lemma createPaste_outcomes:
  assumes "createPaste tm bu dn newId req bd b = (r, b')"
  shows "(r = Json 500 (ErrorBody ''Internal server error'') \<and> b' = b) \<or>
         (\<exists>p. r = Json 201 (CreatedBody newId (baseUrl bu @ ''/p/'' @ newId)) \<and>
              b' = save newId p b \<and> viewsUsed p = 0 \<and> content p = body_content bd \<and>
              maxViews p = (if truthy (max_views bd) then max_views bd else None))"
  using assms
  by (auto simp: createPaste_def Let_def split: option.splits if_splits)

lemma postPastes_outcomes:
  assumes "postPastes tm bu dn newId req b = (r, b')"
  shows "((\<exists>fs. validateCreatePaste (body req) = Inl fs \<and> r = Json 400 (ValidationFailed fs)) \<and> b' = b) \<or>
         (r = Json 500 (ErrorBody ''Internal server error'') \<and> b' = b) \<or>
         (\<exists>bd p. validateCreatePaste (body req) = Inr bd \<and>
              r = Json 201 (CreatedBody newId (baseUrl bu @ ''/p/'' @ newId)) \<and>
              b' = save newId p b \<and> viewsUsed p = 0 \<and> content p = body_content bd \<and>
              maxViews p = max_views bd)"
proof (cases "validateCreatePaste (body req)")
  case (Inl fs)
  with assms postPastes_refused[OF Inl, of tm bu dn newId b] show ?thesis by auto
next
  case (Inr bd)
  with assms have c: "createPaste tm bu dn newId req bd b = (r, b')"
    by (simp add: postPastes_def)
  have keep: "(if truthy (max_views bd) then max_views bd else None) = max_views bd"
    using validated_max_views[OF Inr] truthy_at_least_1 by (cases "max_views bd") auto
  from createPaste_outcomes[OF c] keep Inr show ?thesis by auto
qed

lemma oneViewBackend_docs:
  "docs oneViewBackend = [pasteId \<mapsto> samplePaste None (Some (Finite 1)) 0]"
  by (simp add: oneViewBackend_def postPastes_def validateCreatePaste_def optionalInt_def
      isIntMin1_def toDouble_exact trim_def isStrWhiteSpaceChar_def createPaste_def save_def
      truthy_def postRequest_def newDate_def emptyBackend_def getCurrentTime_def samplePaste_def
      Let_def)

text \<open>
  Claim C10, as stated: a create request with \<^verbatim>\<open>max_views\<close> 0 persists a
  record with \<open>maxViews = null\<close>. The validation in front of the handler
  refuses the request: the route answers 400 naming \<^verbatim>\<open>max_views\<close>, and the
  collection holds no record afterwards.
\<close>

theorem zero_max_views_refused_counterexample:
  "postPastes None None 1000 pasteId (postRequest (JStr ''secret'') JUndefined (JNum 0)) emptyBackend
     = (Json 400 (ValidationFailed [''max_views'']), emptyBackend)
   \<and> docs (snd (postPastes None None 1000 pasteId
         (postRequest (JStr ''secret'') JUndefined (JNum 0)) emptyBackend)) pasteId = None"
  by (simp add: postPastes_def validateCreatePaste_def postRequest_def optionalInt_def
      isIntMin1_zero trim_def isStrWhiteSpaceChar_def emptyBackend_def Let_def)

text \<open>
  Claim C10, amended. A create request whose \<^verbatim>\<open>max_views\<close> is 0 (the number,
  or the string \<^verbatim>\<open>0\<close>) is refused by the validation: the route answers 400,
  \<^verbatim>\<open>max_views\<close> among the failed fields, and leaves the backend as it was.
  Only a 201 changes the backend. The record a 201 persists has
  \<open>viewsUsed = 0\<close>, has \<open>maxViews = null\<close> exactly when \<^verbatim>\<open>max_views\<close> was absent,
  and otherwise a \<open>maxViews\<close> of at least 1: no request creates a record with
  a budget of 0.
\<close>

theorem create_never_stores_zero_budget:
  "(raw_max_views (body req) = JNum 0 \<or> raw_max_views (body req) = JStr ''0'' \<longrightarrow>
      (\<exists>fs. ''max_views'' \<in> set fs \<and>
         postPastes tm bu dn newId req b = (Json 400 (ValidationFailed fs), b)))
   \<and> ((\<forall>cb. fst (postPastes tm bu dn newId req b) \<noteq> Json 201 cb) \<longrightarrow>
        snd (postPastes tm bu dn newId req b) = b)
   \<and> (fst (postPastes tm bu dn newId req b) = Json 201 cb \<longrightarrow>
        (\<exists>p. docs (snd (postPastes tm bu dn newId req b)) newId = Some p \<and>
           viewsUsed p = 0 \<and>
           (maxViews p = None \<longleftrightarrow> raw_max_views (body req) = JUndefined) \<and>
           (\<forall>m. maxViews p = Some m \<longrightarrow> numLessEq (Finite 1) m) \<and>
           maxViews p \<noteq> Some (Finite 0)))"
proof (intro conjI impI)
  assume z: "raw_max_views (body req) = JNum 0 \<or> raw_max_views (body req) = JStr ''0''"
  then have "optionalInt (raw_max_views (body req)) = None"
    by (auto simp: optionalInt_def isIntMin1_zero)
  from validate_max_views_failed[OF this]
  obtain fs where fs: "validateCreatePaste (body req) = Inl fs" "''max_views'' \<in> set fs"
    by blast
  with postPastes_refused[OF fs(1), of tm bu dn newId b]
  show "\<exists>fs. ''max_views'' \<in> set fs \<and>
         postPastes tm bu dn newId req b = (Json 400 (ValidationFailed fs), b)"
    by blast
next
  assume no: "\<forall>cb. fst (postPastes tm bu dn newId req b) \<noteq> Json 201 cb"
  obtain r b' where run: "postPastes tm bu dn newId req b = (r, b')"
    by (cases "postPastes tm bu dn newId req b")
  from postPastes_outcomes[OF run] no run
  show "snd (postPastes tm bu dn newId req b) = b" by auto
next
  assume ok: "fst (postPastes tm bu dn newId req b) = Json 201 cb"
  obtain r b' where run: "postPastes tm bu dn newId req b = (r, b')"
    by (cases "postPastes tm bu dn newId req b")
  from postPastes_outcomes[OF run] ok run
  obtain bd p where bd: "validateCreatePaste (body req) = Inr bd"
    and b': "b' = save newId p b" and v: "viewsUsed p = 0" and m: "maxViews p = max_views bd"
    by auto
  have d: "docs (snd (postPastes tm bu dn newId req b)) newId = Some p"
    using run b' by (simp add: save_def)
  have ge: "\<forall>k. maxViews p = Some k \<longrightarrow> numLessEq (Finite 1) k"
    using validated_max_views[OF bd] m by simp
  then have nz: "maxViews p \<noteq> Some (Finite 0)" by auto
  have un: "maxViews p = None \<longleftrightarrow> raw_max_views (body req) = JUndefined"
    using validated_max_views[OF bd] m by simp
  show "\<exists>p. docs (snd (postPastes tm bu dn newId req b)) newId = Some p \<and>
           viewsUsed p = 0 \<and>
           (maxViews p = None \<longleftrightarrow> raw_max_views (body req) = JUndefined) \<and>
           (\<forall>m. maxViews p = Some m \<longrightarrow> numLessEq (Finite 1) m) \<and>
           maxViews p \<noteq> Some (Finite 0)"
    by (rule exI[of _ p]) (simp add: d v un ge nz)
qed

theorem create_never_stores_zero_budget_witness:
  "(\<exists>fs. ''max_views'' \<in> set fs \<and>
      postPastes None None 1000 pasteId (postRequest (JStr ''secret'') JUndefined (JNum 0)) emptyBackend
        = (Json 400 (ValidationFailed fs), emptyBackend))
   \<and> snd (postPastes None None 1000 pasteId (postRequest (JStr ''secret'') JUndefined (JNum 0))
        emptyBackend) = emptyBackend
   \<and> (\<exists>p. docs oneViewBackend pasteId = Some p \<and> viewsUsed p = 0 \<and>
         maxViews p \<noteq> Some (Finite 0))"
proof -
  let ?zero = "postRequest (JStr ''secret'') JUndefined (JNum 0)"
  let ?one = "postRequest (JStr ''secret'') JUndefined (JNum 1)"
  have z: "raw_max_views (body ?zero) = JNum 0 \<or> raw_max_views (body ?zero) = JStr ''0''"
    by (simp add: postRequest_def)
  have r400: "postPastes None None 1000 pasteId ?zero emptyBackend
     = (Json 400 (ValidationFailed [''max_views'']), emptyBackend)"
    by (simp add: postPastes_def validateCreatePaste_def postRequest_def optionalInt_def
      isIntMin1_zero trim_def isStrWhiteSpaceChar_def Let_def)
  then have no: "\<forall>cb. fst (postPastes None None 1000 pasteId ?zero emptyBackend) \<noteq> Json 201 cb"
    by simp
  have ok: "fst (postPastes None None 1000 pasteId ?one emptyBackend)
      = Json 201 (CreatedBody pasteId (''http://localhost:3000/p/'' @ pasteId))"
    by (simp add: postPastes_def validateCreatePaste_def optionalInt_def
      isIntMin1_def toDouble_exact trim_def isStrWhiteSpaceChar_def createPaste_def save_def
      truthy_def postRequest_def newDate_def emptyBackend_def getCurrentTime_def baseUrl_def
      Let_def)
  show ?thesis
    using create_never_stores_zero_budget[of ?zero None None 1000 pasteId emptyBackend
        "CreatedBody pasteId (''http://localhost:3000/p/'' @ pasteId)"]
      create_never_stores_zero_budget[of ?one None None 1000 pasteId emptyBackend
        "CreatedBody pasteId (''http://localhost:3000/p/'' @ pasteId)"]
      z no ok
    by (auto simp: oneViewBackend_def)
qed


lemma postPastes_invalid_expiry:
  "postPastes None None 1000 pasteId
     (postRequest (JStr ''secret'') (JNum 10000000000000) JUndefined) emptyBackend
   = (Json 500 (ErrorBody ''Internal server error''), emptyBackend)"
  by (simp add: postPastes_def validateCreatePaste_def optionalInt_def
      isIntMin1_def toDouble_def roundMagnitude_def bitLength.simps trim_def
      isStrWhiteSpaceChar_def createPaste_def truthy_def postRequest_def newDate_def
      getCurrentTime_def Let_def)

lemma postPastes_expiresAt:
  "postPastes None None 1000 pasteId
     (postRequest (JStr ''secret'') (JNum 60) JUndefined) emptyBackend
   = (Json 201 (CreatedBody pasteId (''http://localhost:3000/p/'' @ pasteId)),
      \<lparr>docs = [pasteId \<mapsto> samplePaste (Some 61000) None 0], calls = [Save pasteId]\<rparr>)"
  by (simp add: postPastes_def validateCreatePaste_def optionalInt_def
      isIntMin1_def toDouble_exact trim_def isStrWhiteSpaceChar_def createPaste_def save_def
      truthy_def postRequest_def newDate_def getCurrentTime_def emptyBackend_def baseUrl_def
      samplePaste_def Let_def)

subsection \<open>Readers one at a time, and readers together\<close>

text \<open>
  A request scheduled alone for three steps does what its handler does; so
  \<open>run\<close> and the handlers agree where both apply.
\<close>

lemma run_alone_api:
  "run tm [0, 0, 0] ([arrived ApiRoute req dn], b) =
     ([(arrived ApiRoute req dn)\<lparr>t_at := Finished (fst (fetchPaste tm dn req b))\<rparr>],
      snd (fetchPaste tm dn req b))"
  by (simp add: step_def arrived_def fetchPaste_def unavailable_def serverError_def served_def
      findById_def Let_def split: option.splits)

lemma run_alone_view:
  "run tm [0, 0, 0] ([arrived ViewRoute req dn], b) =
     ([(arrived ViewRoute req dn)\<lparr>t_at := Finished (fst (viewPaste tm dn req b))\<rparr>],
      snd (viewPaste tm dn req b))"
  by (simp add: step_def arrived_def viewPaste_def unavailable_def serverError_def served_def
      findById_def Let_def split: option.splits)

text \<open>
  When reads do not overlap, the counter stays within \<open>maxViews\<close>: the create
  route starts a paste within its budget, each read keeps every paste within
  it, and of \<open>n\<close> reads in a row exactly as many are served as the budget had
  left.
\<close>

lemma postPastes_withinBudget:
  assumes "fst (postPastes tm bu dn newId req b) = Json 201 cb"
    and "docs (snd (postPastes tm bu dn newId req b)) newId = Some p"
  shows "withinBudget p"
proof -
  obtain r b' where run: "postPastes tm bu dn newId req b = (r, b')"
    by (cases "postPastes tm bu dn newId req b")
  from postPastes_outcomes[OF run] assms(1) run
  obtain bd q where bd: "validateCreatePaste (body req) = Inr bd"
    and b': "b' = save newId q b" and v: "viewsUsed q = 0" and m: "maxViews q = max_views bd"
    by auto
  have "q = p" using assms(2) run b' by (simp add: save_def)
  moreover have "withinBudget q"
  proof (cases "maxViews q")
    case None
    then show ?thesis by (simp add: withinBudget_def)
  next
    case (Some k)
    with validated_max_views[OF bd] m have "numLessEq (Finite 1) k" by simp
    then have "numLessEq (Finite 0) k" by (cases k) simp_all
    with Some v show ?thesis by (simp add: withinBudget_def)
  qed
  ultimately show ?thesis by simp
qed

lemma fetchPaste_withinBudget:
  assumes inv: "\<And>j q. docs b j = Some q \<Longrightarrow> withinBudget q"
    and after: "docs (snd (fetchPaste tm dn req b)) j = Some q'"
  shows "withinBudget q'"
proof -
  obtain r b' where run: "fetchPaste tm dn req b = (r, b')" by (cases "fetchPaste tm dn req b")
  from fetchPaste_outcomes[OF run] show ?thesis
  proof
    assume "r = notFoundJson \<and> docs b' = docs b"
    with run after inv show ?thesis by simp
  next
    assume "\<exists>p. docs b (params_id req) = Some p \<and> matchesObjectId (params_id req) \<and>
        \<not> hasExpired p (getCurrentTime tm dn (Some req)) \<and> \<not> viewLimitReached p \<and>
        r = Json 200 (PasteBody (content p) (remainingViewsOf (p\<lparr>viewsUsed := viewsUsed p + 1\<rparr>)) (expiresAt p)) \<and>
        docs b' = (docs b)(params_id req \<mapsto> p\<lparr>viewsUsed := viewsUsed p + 1\<rparr>)"
    then obtain p where p: "docs b (params_id req) = Some p" "\<not> viewLimitReached p"
      and d: "docs b' = (docs b)(params_id req \<mapsto> p\<lparr>viewsUsed := viewsUsed p + 1\<rparr>)"
      by blast
    show ?thesis
    proof (cases "j = params_id req")
      case True
      with run after d have q': "q' = p\<lparr>viewsUsed := viewsUsed p + 1\<rparr>" by simp
      have "withinBudget p" using p(1) by (rule inv)
      with p(2) q' show ?thesis
      proof (cases "maxViews p")
        case None
        with q' show ?thesis by (simp add: withinBudget_def)
      next
        case (Some m)
        with p(2) \<open>withinBudget p\<close> q' show ?thesis
          by (cases m) (auto simp: withinBudget_def viewLimitReached_def)
      qed
    next
      case False
      with run after d have "docs b j = Some q'" by simp
      then show ?thesis by (rule inv)
    qed
  qed
qed

lemma fetchMany_budget:
  "matchesObjectId (params_id req) \<Longrightarrow> docs b (params_id req) = Some p \<Longrightarrow>
   maxViews p = Some (Finite m) \<Longrightarrow> viewsUsed p \<le> m \<Longrightarrow>
   \<not> hasExpired p (getCurrentTime tm dn (Some req)) \<Longrightarrow>
   length (filter (\<lambda>r. r \<noteq> notFoundJson) (fst (fetchMany tm dn req n b)))
     = min n (nat (m - viewsUsed p))"
proof (induction n arbitrary: b p)
  case 0
  then show ?case by simp
next
  case (Suc n)
  show ?case
  proof (cases "viewsUsed p < m")
    case True
    let ?p' = "p\<lparr>viewsUsed := viewsUsed p + 1\<rparr>"
    let ?b' = "b\<lparr>docs := (docs b)(params_id req \<mapsto> ?p'),
        calls := calls b @ [FindById (params_id req), IncViewsUsed (params_id req), FindById (params_id req)]\<rparr>"
    have live: "\<not> viewLimitReached p"
      using True Suc.prems(3) by (simp add: viewLimitReached_def)
    have one: "fetchPaste tm dn req b =
        (Json 200 (PasteBody (content p) (remainingViewsOf ?p') (expiresAt p)), ?b')"
      using fetchPaste_live[OF Suc.prems(1,2,5) live] .
    have x: "\<not> hasExpired ?p' (getCurrentTime tm dn (Some req))"
      using Suc.prems(5) by (simp add: hasExpired_def)
    have rest: "length (filter (\<lambda>r. r \<noteq> notFoundJson) (fst (fetchMany tm dn req n ?b')))
        = min n (nat (m - viewsUsed ?p'))"
      using Suc.IH[of ?b' ?p'] Suc.prems True x by simp
    show ?thesis using one rest True
      by (simp add: case_prod_beta notFoundJson_def)
  next
    case False
    with Suc.prems have full: "viewsUsed p = m" by simp
    let ?b' = "b\<lparr>calls := calls b @ [FindById (params_id req)]\<rparr>"
    have lim: "viewLimitReached p"
      using full Suc.prems(3) by (simp add: viewLimitReached_def)
    have one: "fetchPaste tm dn req b = (notFoundJson, ?b')"
      using fetchPaste_exhausted[OF Suc.prems(1,2) lim] .
    have rest: "length (filter (\<lambda>r. r \<noteq> notFoundJson) (fst (fetchMany tm dn req n ?b')))
        = min n (nat (m - viewsUsed p))"
      using Suc.IH[of ?b' p] Suc.prems by simp
    show ?thesis using one rest full by (simp add: case_prod_beta)
  qed
qed

text \<open>
  Whatever the schedule, a request is refused only in its first step, which
  writes nothing; the one step that writes adds 1 to the counter of the
  paste it reads; and so along a run a paste keeps its fields and its counter
  never goes down.
\<close>

lemma step_refusal_only_on_arrival:
  "step tm t b = (t', b') \<Longrightarrow> t_at t' = Finished (unavailable (t_route t)) \<Longrightarrow>
   t_at t \<noteq> Finished (unavailable (t_route t)) \<Longrightarrow> t_at t = Arrived \<and> docs b' = docs b"
  by (cases "t_at t")
     (auto simp: step_def findById_def Let_def unavailable_def served_def serverError_def
      notFoundJson_def serverErrorJson_def split: option.splits if_splits route.splits)

lemma step_writes:
  "step tm t b = (t', b') \<Longrightarrow>
   docs b' = docs b \<or>
   (t_at t = PastChecks \<and>
    (\<exists>p. docs b (params_id (t_req t)) = Some p \<and>
         docs b' = (docs b)(params_id (t_req t) \<mapsto> p\<lparr>viewsUsed := viewsUsed p + 1\<rparr>)))"
  by (cases "t_at t")
     (auto simp: step_def findById_def findByIdAndUpdate_inc_def Let_def
      split: option.splits if_splits)

lemma step_counter_grows:
  assumes "step tm t b = (t', b')" and "docs b i = Some p"
  shows "\<exists>k. 0 \<le> k \<and> docs b' i = Some (p\<lparr>viewsUsed := viewsUsed p + k\<rparr>)"
proof -
  from step_writes[OF assms(1)] show ?thesis
  proof
    assume "docs b' = docs b"
    with assms(2) show ?thesis by (intro exI[of _ 0]) simp
  next
    assume "t_at t = PastChecks \<and>
      (\<exists>p. docs b (params_id (t_req t)) = Some p \<and>
         docs b' = (docs b)(params_id (t_req t) \<mapsto> p\<lparr>viewsUsed := viewsUsed p + 1\<rparr>))"
    then obtain q where q: "docs b (params_id (t_req t)) = Some q"
      and d: "docs b' = (docs b)(params_id (t_req t) \<mapsto> q\<lparr>viewsUsed := viewsUsed q + 1\<rparr>)"
      by blast
    show ?thesis
    proof (cases "i = params_id (t_req t)")
      case True
      with q assms(2) d show ?thesis by (intro exI[of _ 1]) simp
    next
      case False
      with assms(2) d show ?thesis by (intro exI[of _ 0]) simp
    qed
  qed
qed

lemma run_counter_grows:
  "docs b i = Some p \<Longrightarrow>
   \<exists>k. 0 \<le> k \<and> docs (snd (run tm sched (ts, b))) i = Some (p\<lparr>viewsUsed := viewsUsed p + k\<rparr>)"
proof (induction sched arbitrary: ts b p)
  case Nil
  then show ?case by (intro exI[of _ 0]) simp
next
  case (Cons j sched)
  show ?case
  proof (cases "j < length ts")
    case False
    with Cons.IH[OF Cons.prems, of ts] show ?thesis by simp
  next
    case True
    obtain t' b' where st: "step tm (ts ! j) b = (t', b')" by (cases "step tm (ts ! j) b")
    from step_counter_grows[OF st Cons.prems]
    obtain k where k: "0 \<le> k" "docs b' i = Some (p\<lparr>viewsUsed := viewsUsed p + k\<rparr>)" by blast
    from Cons.IH[OF k(2), of "ts[j := t']"]
    obtain k' where k': "0 \<le> k'"
      "docs (snd (run tm sched (ts[j := t'], b'))) i
         = Some (p\<lparr>viewsUsed := viewsUsed p + k + k'\<rparr>)"
      by auto
    show ?thesis
      using True st k(1) k' by (intro exI[of _ "k + k'"]) (simp add: add.assoc)
  qed
qed

subsection \<open>Remaining views\<close>

lemma fetchMany_unlimited:
  "matchesObjectId (params_id req) \<Longrightarrow> docs b (params_id req) = Some p \<Longrightarrow>
   expiresAt p = None \<Longrightarrow> maxViews p = None \<Longrightarrow>
   fst (fetchMany tm dn req n b) = replicate n (Json 200 (PasteBody (content p) None None))"
proof (induction n arbitrary: b p)
  case 0
  then show ?case by simp
next
  case (Suc n)
  let ?p' = "p\<lparr>viewsUsed := viewsUsed p + 1\<rparr>"
  let ?b' = "b\<lparr>docs := (docs b)(params_id req \<mapsto> ?p'),
        calls := calls b @ [FindById (params_id req), IncViewsUsed (params_id req), FindById (params_id req)]\<rparr>"
  have live: "\<not> hasExpired p (getCurrentTime tm dn (Some req))" "\<not> viewLimitReached p"
    using Suc.prems by (simp_all add: hasExpired_def viewLimitReached_def)
  have one: "fetchPaste tm dn req b = (Json 200 (PasteBody (content p) None None), ?b')"
    using fetchPaste_live[OF Suc.prems(1,2) live] Suc.prems(3,4)
    by (simp add: remainingViewsOf_def)
  have rest: "fst (fetchMany tm dn req n ?b') = replicate n (Json 200 (PasteBody (content ?p') None None))"
    using Suc.IH[of ?b' ?p'] Suc.prems by simp
  show ?case using one rest by (simp add: case_prod_beta)
qed

text \<open>
  A request gets its 200 in the step that reads the document again, and what
  it reports is computed from the document as read there. A finished request
  stays as it is. From the moment a request has passed the checks, the
  counter it will read holds its own increment and whatever other readers
  add meanwhile.
\<close>

lemma step_serves_after_increment:
  assumes "step tm t b = (t', b')" and "t_at t \<noteq> t_at t'"
    and "t_at t' = Finished (Json 200 (PasteBody c r ex)) \<or>
         t_at t' = Finished (Html 200 (PastePage u0 r))"
  shows "t_at t = Incremented \<and>
         (\<exists>u. docs b (params_id (t_req t)) = Some u \<and> r = remainingViewsOf u)"
  using assms
  by (cases "t_at t")
     (auto simp: step_def findById_def Let_def unavailable_def served_def serverError_def
        notFoundJson_def serverErrorJson_def split: option.splits if_splits route.splits)

lemma step_keeps_request:
  "step tm t b = (t', b') \<Longrightarrow> t_req t' = t_req t \<and> t_route t' = t_route t"
  by (cases "t_at t")
     (auto simp: step_def findById_def Let_def split: option.splits if_splits)

lemma step_finished: "t_at t = Finished r \<Longrightarrow> step tm t b = (t, b)"
  by (simp add: step_def)

lemma run_length: "length (fst (run tm sched (ts, b))) = length ts"
  by (induction sched arbitrary: ts b) (auto simp: case_prod_beta Let_def)

lemma run_finished_stays:
  "k < length ts \<Longrightarrow> t_at (ts ! k) = Finished r \<Longrightarrow>
   fst (run tm sched (ts, b)) ! k = ts ! k"
proof (induction sched arbitrary: ts b)
  case Nil
  then show ?case by simp
next
  case (Cons j sched)
  show ?case
  proof (cases "j < length ts")
    case False
    with Cons show ?thesis by simp
  next
    case True
    obtain t' b' where st: "step tm (ts ! j) b = (t', b')" by (cases "step tm (ts ! j) b")
    have same: "(ts[j := t']) ! k = ts ! k"
    proof (cases "j = k")
      case True
      with st Cons.prems step_finished[of "ts ! k" r tm b] show ?thesis by simp
    next
      case False
      then show ?thesis by simp
    qed
    have "fst (run tm sched (ts[j := t'], b')) ! k = (ts[j := t']) ! k"
      using Cons.IH[of "ts[j := t']" b'] Cons.prems same by simp
    with True st same show ?thesis by simp
  qed
qed

lemma run_after_increment:
  "k < length ts \<Longrightarrow> t_at (ts ! k) = Incremented \<Longrightarrow>
   docs b (params_id (t_req (ts ! k))) = Some u \<Longrightarrow>
   t_at (fst (run tm sched (ts, b)) ! k) = Finished (Json 200 (PasteBody c r ex)) \<or>
   t_at (fst (run tm sched (ts, b)) ! k) = Finished (Html 200 (PastePage u0 r)) \<Longrightarrow>
   \<exists>j. 0 \<le> j \<and> r = remainingViewsOf (u\<lparr>viewsUsed := viewsUsed u + j\<rparr>)"
proof (induction sched arbitrary: ts b u)
  case Nil
  then show ?case by simp
next
  case (Cons i sched)
  show ?case
  proof (cases "i < length ts")
    case False
    with Cons.prems Cons.IH[of ts b u] show ?thesis by simp
  next
    case True
    obtain t' b' where st: "step tm (ts ! i) b = (t', b')" by (cases "step tm (ts ! i) b")
    have unfold: "run tm (i # sched) (ts, b) = run tm sched (ts[i := t'], b')"
      using True st by simp
    show ?thesis
    proof (cases "i = k")
      case True
      have t': "t_at t' = Finished (served (t_route (ts ! k)) u)" and "b' = snd (findById (params_id (t_req (ts ! k))) b)"
        using st True Cons.prems(2,3) by (auto simp: step_def findById_def Let_def)
      have "fst (run tm sched (ts[i := t'], b')) ! k = (ts[i := t']) ! k"
        using run_finished_stays[of k "ts[i := t']" "served (t_route (ts ! k)) u" tm sched b']
          True Cons.prems(1) t' by simp
      then have "t_at (fst (run tm (i # sched) (ts, b)) ! k) = Finished (served (t_route (ts ! k)) u)"
        using unfold True Cons.prems(1) t' by simp
      with Cons.prems(4) have "r = remainingViewsOf u"
        by (auto simp: served_def split: route.splits)
      then show ?thesis by (intro exI[of _ 0]) simp
    next
      case False
      from step_counter_grows[OF st Cons.prems(3)]
      obtain j where j: "0 \<le> j"
        "docs b' (params_id (t_req (ts ! k))) = Some (u\<lparr>viewsUsed := viewsUsed u + j\<rparr>)"
        by blast
      have keep: "(ts[i := t']) ! k = ts ! k" using False by simp
      from Cons.IH[of "ts[i := t']" b' "u\<lparr>viewsUsed := viewsUsed u + j\<rparr>"]
        Cons.prems(1,2,4) keep j(2) unfold
      obtain j' where j': "0 \<le> j'"
        "r = remainingViewsOf (u\<lparr>viewsUsed := viewsUsed u + j + j'\<rparr>)"
        by auto
      show ?thesis using j(1) j' by (intro exI[of _ "j + j'"]) (simp add: add.assoc)
    qed
  qed
qed

lemma run_after_checks:
  "k < length ts \<Longrightarrow> t_at (ts ! k) = PastChecks \<Longrightarrow>
   docs b (params_id (t_req (ts ! k))) = Some p \<Longrightarrow>
   t_at (fst (run tm sched (ts, b)) ! k) = Finished (Json 200 (PasteBody c r ex)) \<or>
   t_at (fst (run tm sched (ts, b)) ! k) = Finished (Html 200 (PastePage u0 r)) \<Longrightarrow>
   \<exists>j. 0 \<le> j \<and> r = remainingViewsOf (p\<lparr>viewsUsed := viewsUsed p + 1 + j\<rparr>)"
proof (induction sched arbitrary: ts b p)
  case Nil
  then show ?case by simp
next
  case (Cons i sched)
  show ?case
  proof (cases "i < length ts")
    case False
    with Cons.prems Cons.IH[of ts b p] show ?thesis by simp
  next
    case True
    obtain t' b' where st: "step tm (ts ! i) b = (t', b')" by (cases "step tm (ts ! i) b")
    have unfold: "run tm (i # sched) (ts, b) = run tm sched (ts[i := t'], b')"
      using True st by simp
    show ?thesis
    proof (cases "i = k")
      case True
      have t': "t_at t' = Incremented" "t_req t' = t_req (ts ! k)"
        and b': "docs b' (params_id (t_req (ts ! k))) = Some (p\<lparr>viewsUsed := viewsUsed p + 1\<rparr>)"
        using st True Cons.prems(2,3)
        by (auto simp: step_def findByIdAndUpdate_inc_def Let_def)
      have at: "(ts[i := t']) ! k = t'" using True Cons.prems(1) by simp
      from run_after_increment[of k "ts[i := t']" b' "p\<lparr>viewsUsed := viewsUsed p + 1\<rparr>"
          tm sched c r ex u0]
        Cons.prems(1,4) at t' b' unfold
      obtain j where "0 \<le> j"
        "r = remainingViewsOf (p\<lparr>viewsUsed := viewsUsed p + 1 + j\<rparr>)"
        by auto
      then show ?thesis by blast
    next
      case False
      from step_counter_grows[OF st Cons.prems(3)]
      obtain j where j: "0 \<le> j"
        "docs b' (params_id (t_req (ts ! k))) = Some (p\<lparr>viewsUsed := viewsUsed p + j\<rparr>)"
        by blast
      have keep: "(ts[i := t']) ! k = ts ! k" using False by simp
      from Cons.IH[of "ts[i := t']" b' "p\<lparr>viewsUsed := viewsUsed p + j\<rparr>"]
        Cons.prems(1,2,4) keep j(2) unfold
      obtain j' where j': "0 \<le> j'"
        "r = remainingViewsOf (p\<lparr>viewsUsed := viewsUsed p + j + 1 + j'\<rparr>)"
        by auto
      show ?thesis using j(1) j'
        by (intro exI[of _ "j + j'"]) (simp add: add.assoc add.commute add.left_commute)
    qed
  qed
qed

text \<open>
  Claim C7. Every read that is answered 200, in any schedule: from the moment
  a request has passed the checks, its response reports \<open>maxViews\<close> minus a
  counter that holds its own increment and those of the readers that ran
  in between (\<open>viewsUsed + 1 + j\<close>), or 0 when that is negative, and \<^verbatim>\<open>null\<close>
  when \<open>maxViews\<close> is unset. The counter is the one of the document as the
  request reads it again after its increment; for a finite budget the value
  is \<open>max 0 (maxViews - viewsUsed)\<close>. For a read run alone the counter read
  is the one found plus 1. A paste with neither expiry nor \<open>maxViews\<close> is
  served on each of any number of reads in a row, with \<^verbatim>\<open>null\<close> remaining
  views.
\<close>

theorem remaining_views_reported:
  "(k < length ts \<and> t_at (ts ! k) = PastChecks \<and>
      docs b (params_id (t_req (ts ! k))) = Some p \<and>
      (t_at (fst (run tm sched (ts, b)) ! k) = Finished (Json 200 (PasteBody c r ex)) \<or>
       t_at (fst (run tm sched (ts, b)) ! k) = Finished (Html 200 (PastePage u0 r))) \<longrightarrow>
      (\<exists>j. 0 \<le> j \<and>
         r = (case maxViews p of
                None \<Rightarrow> None
              | Some m \<Rightarrow>
                  Some (if numLess (numSub m (Finite (viewsUsed p + 1 + j))) (Finite 0)
                        then Finite 0
                        else numSub m (Finite (viewsUsed p + 1 + j))))))
   \<and> (step tm t b = (t', b1) \<and> t_at t \<noteq> t_at t' \<and>
      (t_at t' = Finished (Json 200 (PasteBody c r ex)) \<or>
       t_at t' = Finished (Html 200 (PastePage u0 r))) \<longrightarrow>
      (\<exists>u. t_at t = Incremented \<and> docs b (params_id (t_req t)) = Some u \<and>
         r = (case maxViews u of
                None \<Rightarrow> None
              | Some m \<Rightarrow>
                  Some (if numLess (numSub m (Finite (viewsUsed u))) (Finite 0) then Finite 0
                        else numSub m (Finite (viewsUsed u)))) \<and>
         (\<forall>m. maxViews u = Some (Finite m) \<and> \<bar>m - viewsUsed u\<bar> \<le> 2 ^ 53 \<longrightarrow>
              r = Some (Finite (max 0 (m - viewsUsed u))))))
   \<and> (fetchPaste tm dn req b = (Json 200 (PasteBody c r ex), b') \<longrightarrow>
      (\<exists>p u. docs b (params_id req) = Some p \<and> docs b' (params_id req) = Some u \<and>
         viewsUsed u = viewsUsed p + 1 \<and> maxViews u = maxViews p \<and>
         r = (case maxViews u of
                None \<Rightarrow> None
              | Some m \<Rightarrow>
                  Some (if numLess (numSub m (Finite (viewsUsed u))) (Finite 0) then Finite 0
                        else numSub m (Finite (viewsUsed u))))))
   \<and> (matchesObjectId (params_id req) \<and> docs b (params_id req) = Some q \<and>
        expiresAt q = None \<and> maxViews q = None \<longrightarrow>
      fst (fetchMany tm dn req n b) = replicate n (Json 200 (PasteBody (content q) None None)))"
proof (intro conjI impI)
  assume h: "k < length ts \<and> t_at (ts ! k) = PastChecks \<and>
      docs b (params_id (t_req (ts ! k))) = Some p \<and>
      (t_at (fst (run tm sched (ts, b)) ! k) = Finished (Json 200 (PasteBody c r ex)) \<or>
       t_at (fst (run tm sched (ts, b)) ! k) = Finished (Html 200 (PastePage u0 r)))"
  from run_after_checks[of k ts b p tm sched c r ex u0] h
  obtain j where j: "0 \<le> j"
    "r = remainingViewsOf (p\<lparr>viewsUsed := viewsUsed p + 1 + j\<rparr>)"
    by blast
  have "r = (case maxViews p of
                None \<Rightarrow> None
              | Some m \<Rightarrow>
                  Some (if numLess (numSub m (Finite (viewsUsed p + 1 + j))) (Finite 0)
                        then Finite 0
                        else numSub m (Finite (viewsUsed p + 1 + j))))"
    using j(2) by (simp add: remainingViewsOf_def Let_def split: option.splits)
  with j(1) show "\<exists>j. 0 \<le> j \<and>
         r = (case maxViews p of
                None \<Rightarrow> None
              | Some m \<Rightarrow>
                  Some (if numLess (numSub m (Finite (viewsUsed p + 1 + j))) (Finite 0)
                        then Finite 0
                        else numSub m (Finite (viewsUsed p + 1 + j))))"
    by blast
next
  assume h: "step tm t b = (t', b1) \<and> t_at t \<noteq> t_at t' \<and>
      (t_at t' = Finished (Json 200 (PasteBody c r ex)) \<or>
       t_at t' = Finished (Html 200 (PastePage u0 r)))"
  from step_serves_after_increment[of tm t b t' b1 c r ex u0] h
  obtain u where inc: "t_at t = Incremented"
    and u: "docs b (params_id (t_req t)) = Some u" and r: "r = remainingViewsOf u"
    by blast
  have form: "r = (case maxViews u of
                None \<Rightarrow> None
              | Some m \<Rightarrow>
                  Some (if numLess (numSub m (Finite (viewsUsed u))) (Finite 0) then Finite 0
                        else numSub m (Finite (viewsUsed u))))"
    using r by (simp add: remainingViewsOf_def Let_def split: option.splits)
  have fin: "\<forall>m. maxViews u = Some (Finite m) \<and> \<bar>m - viewsUsed u\<bar> \<le> 2 ^ 53 \<longrightarrow>
              r = Some (Finite (max 0 (m - viewsUsed u)))"
    using form by (auto simp: numSub_small max_def)
  show "\<exists>u. t_at t = Incremented \<and> docs b (params_id (t_req t)) = Some u \<and>
         r = (case maxViews u of
                None \<Rightarrow> None
              | Some m \<Rightarrow>
                  Some (if numLess (numSub m (Finite (viewsUsed u))) (Finite 0) then Finite 0
                        else numSub m (Finite (viewsUsed u)))) \<and>
         (\<forall>m. maxViews u = Some (Finite m) \<and> \<bar>m - viewsUsed u\<bar> \<le> 2 ^ 53 \<longrightarrow>
              r = Some (Finite (max 0 (m - viewsUsed u))))"
    using inc u form fin by blast
next
  assume run: "fetchPaste tm dn req b = (Json 200 (PasteBody c r ex), b')"
  from fetchPaste_outcomes[OF run] obtain p where
    p: "docs b (params_id req) = Some p"
    and r: "Json 200 (PasteBody c r ex) =
      Json 200 (PasteBody (content p) (remainingViewsOf (p\<lparr>viewsUsed := viewsUsed p + 1\<rparr>)) (expiresAt p))"
    and d: "docs b' = (docs b)(params_id req \<mapsto> p\<lparr>viewsUsed := viewsUsed p + 1\<rparr>)"
    by (auto simp: notFoundJson_def)
  let ?u = "p\<lparr>viewsUsed := viewsUsed p + 1\<rparr>"
  have "docs b' (params_id req) = Some ?u" using d by simp
  moreover have "r = (case maxViews ?u of
                None \<Rightarrow> None
              | Some m \<Rightarrow>
                  Some (if numLess (numSub m (Finite (viewsUsed ?u))) (Finite 0) then Finite 0
                        else numSub m (Finite (viewsUsed ?u))))"
    using r by (simp add: remainingViewsOf_def Let_def split: option.splits)
  ultimately show "\<exists>p u. docs b (params_id req) = Some p \<and> docs b' (params_id req) = Some u \<and>
         viewsUsed u = viewsUsed p + 1 \<and> maxViews u = maxViews p \<and>
         r = (case maxViews u of
                None \<Rightarrow> None
              | Some m \<Rightarrow>
                  Some (if numLess (numSub m (Finite (viewsUsed u))) (Finite 0) then Finite 0
                        else numSub m (Finite (viewsUsed u))))"
    using p by (intro exI[of _ p] exI[of _ ?u]) simp
next
  assume "matchesObjectId (params_id req) \<and> docs b (params_id req) = Some q \<and>
        expiresAt q = None \<and> maxViews q = None"
  then show "fst (fetchMany tm dn req n b) = replicate n (Json 200 (PasteBody (content q) None None))"
    using fetchMany_unlimited[of req b q tm dn n] by simp
qed

theorem remaining_views_reported_witness:
  "(\<exists>j. 0 \<le> j \<and>
      Some (Finite 0) =
        (case maxViews (samplePaste None (Some (Finite 1)) 0) of
           None \<Rightarrow> None
         | Some m \<Rightarrow>
             Some (if numLess (numSub m (Finite
                        (viewsUsed (samplePaste None (Some (Finite 1)) 0) + 1 + j))) (Finite 0)
                   then Finite 0
                   else numSub m (Finite
                        (viewsUsed (samplePaste None (Some (Finite 1)) 0) + 1 + j)))))
   \<and> (\<exists>u. docs (storing (samplePaste None (Some (Finite 1)) 2)) pasteId = Some u \<and>
        Some (Finite 0) = Some (Finite (max 0 (1 - viewsUsed u))))
   \<and> (\<exists>p u. docs (storing (samplePaste None (Some (Finite 3)) 1)) pasteId = Some p \<and>
        docs (snd (fetchPaste None 2000 (getRequest pasteId)
                (storing (samplePaste None (Some (Finite 3)) 1)))) pasteId = Some u \<and>
        viewsUsed u = viewsUsed p + 1 \<and> maxViews u = maxViews p)
   \<and> fst (fetchMany None 2000 (getRequest pasteId) 3 (storing (samplePaste None None 0)))
       = [Json 200 (PasteBody ''secret'' None None), Json 200 (PasteBody ''secret'' None None),
          Json 200 (PasteBody ''secret'' None None)]"
proof -
  let ?req = "getRequest pasteId"
  let ?served = "Json 200 (PasteBody ''secret'' (Some (Finite 0)) None)"
  have v: "matchesObjectId (params_id ?req)"
    by (simp add: getRequest_def matchesObjectId_pasteId)
  have id: "params_id ?req = pasteId" by (simp add: getRequest_def)

  let ?ts = "[pastChecks ApiRoute ?req 2000, pastChecks ApiRoute ?req 2000]"
  let ?b0 = "storing (samplePaste None (Some (Finite 1)) 0)"
  have h1: "0 < length ?ts \<and> t_at (?ts ! 0) = PastChecks \<and>
      docs ?b0 (params_id (t_req (?ts ! 0))) = Some (samplePaste None (Some (Finite 1)) 0) \<and>
      (t_at (fst (run None [0, 1, 0, 1] (?ts, ?b0)) ! 0) = Finished ?served \<or>
       t_at (fst (run None [0, 1, 0, 1] (?ts, ?b0)) ! 0)
         = Finished (Html 200 (PastePage (samplePaste None None 0) (Some (Finite 0)))))"
    by (simp add: pastChecks_def step_def getRequest_def storing_def samplePaste_def findById_def
        findByIdAndUpdate_inc_def served_def remainingViewsOf_def numSub_small Let_def)
  have first: "\<exists>j. 0 \<le> j \<and>
      Some (Finite 0) =
        (case maxViews (samplePaste None (Some (Finite 1)) 0) of
           None \<Rightarrow> None
         | Some m \<Rightarrow>
             Some (if numLess (numSub m (Finite
                        (viewsUsed (samplePaste None (Some (Finite 1)) 0) + 1 + j))) (Finite 0)
                   then Finite 0
                   else numSub m (Finite
                        (viewsUsed (samplePaste None (Some (Finite 1)) 0) + 1 + j))))"
    using remaining_views_reported[where k = 0 and ts = ?ts and b = ?b0
        and p = "samplePaste None (Some (Finite 1)) 0" and tm = None and sched = "[0, 1, 0, 1]"
        and c = "''secret''" and r = "Some (Finite 0)" and ex = None
        and ?u0.0 = "samplePaste None None 0", THEN conjunct1, rule_format, OF h1]
    .

  let ?t = "(arrived ApiRoute ?req 2000)\<lparr>t_at := Incremented\<rparr>"
  let ?b = "storing (samplePaste None (Some (Finite 1)) 2)"
  let ?t' = "?t\<lparr>t_at := Finished ?served\<rparr>"
  have h2: "step None ?t ?b = (?t', snd (step None ?t ?b)) \<and> t_at ?t \<noteq> t_at ?t' \<and>
      (t_at ?t' = Finished ?served \<or>
       t_at ?t' = Finished (Html 200 (PastePage (samplePaste None None 0) (Some (Finite 0)))))"
    by (simp add: step_def arrived_def getRequest_def storing_def samplePaste_def findById_def
        served_def remainingViewsOf_def numSub_small Let_def)
  from remaining_views_reported[where tm = None and t = ?t and b = ?b and t' = ?t'
        and ?b1.0 = "snd (step None ?t ?b)" and c = "''secret''" and r = "Some (Finite 0)"
        and ex = None and ?u0.0 = "samplePaste None None 0",
        THEN conjunct2, THEN conjunct1, rule_format, OF h2]
  obtain u where u: "docs ?b (params_id (t_req ?t)) = Some u"
    and f: "\<forall>m. maxViews u = Some (Finite m) \<and> \<bar>m - viewsUsed u\<bar> \<le> 2 ^ 53 \<longrightarrow>
              Some (Finite 0) = Some (Finite (max 0 (m - viewsUsed u)))"
    by blast
  have tid: "params_id (t_req ?t) = pasteId"
    by (simp add: arrived_def getRequest_def)
  have ueq: "u = samplePaste None (Some (Finite 1)) 2"
    using u tid by (simp add: storing_def)
  have small: "maxViews u = Some (Finite 1) \<and> \<bar>1 - viewsUsed u\<bar> \<le> 2 ^ 53"
    using ueq by (simp add: samplePaste_def)
  have second: "\<exists>u. docs ?b pasteId = Some u \<and>
        Some (Finite 0) = Some (Finite (max 0 (1 - viewsUsed u)))"
    using u tid f small by (metis (no_types, lifting))

  let ?b3 = "storing (samplePaste None (Some (Finite 3)) 1)"
  have h3: "fetchPaste None 2000 ?req ?b3
      = (Json 200 (PasteBody ''secret'' (Some (Finite 1)) None), snd (fetchPaste None 2000 ?req ?b3))"
    using fetchPaste_live[OF v, of ?b3 "samplePaste None (Some (Finite 3)) 1" None 2000]
    by (simp add: storing_def getRequest_def viewLimitReached_def samplePaste_def hasExpired_def
        remainingViewsOf_def numSub_small)
  have third: "\<exists>p u. docs ?b3 pasteId = Some p \<and>
        docs (snd (fetchPaste None 2000 ?req ?b3)) pasteId = Some u \<and>
        viewsUsed u = viewsUsed p + 1 \<and> maxViews u = maxViews p"
    using remaining_views_reported[where tm = None and dn = 2000 and req = ?req and b = ?b3
        and c = "''secret''" and r = "Some (Finite 1)" and ex = None
        and b' = "snd (fetchPaste None 2000 ?req ?b3)",
        THEN conjunct2, THEN conjunct2, THEN conjunct1, rule_format, OF h3] id
    by auto

  have h4: "matchesObjectId (params_id ?req) \<and>
        docs (storing (samplePaste None None 0)) (params_id ?req) = Some (samplePaste None None 0) \<and>
        expiresAt (samplePaste None None 0) = None \<and> maxViews (samplePaste None None 0) = None"
    using v by (simp add: storing_def getRequest_def samplePaste_def)
  have three: "replicate 3 (Json 200 (PasteBody (content (samplePaste None None 0)) None None))
      = [Json 200 (PasteBody ''secret'' None None), Json 200 (PasteBody ''secret'' None None),
          Json 200 (PasteBody ''secret'' None None)]"
    by (simp add: samplePaste_def numeral_3_eq_3)
  have fourth: "fst (fetchMany None 2000 ?req 3 (storing (samplePaste None None 0)))
       = [Json 200 (PasteBody ''secret'' None None), Json 200 (PasteBody ''secret'' None None),
          Json 200 (PasteBody ''secret'' None None)]"
    using remaining_views_reported[where tm = None and dn = 2000 and req = ?req
        and b = "storing (samplePaste None None 0)" and q = "samplePaste None None 0" and n = 3,
        THEN conjunct2, THEN conjunct2, THEN conjunct2, rule_format, OF h4] three
    by simp
  show ?thesis using first second third fourth by blast
qed

subsection \<open>Two readers of a one-view paste\<close>

text \<open>
  Claim C1. The check of \<open>viewsUsed\<close> against \<open>maxViews\<close> and the increment are
  two database calls, and the increment carries no condition. A paste created
  with \<^verbatim>\<open>max_views: 1\<close> is read by two requests whose calls alternate
  (find, find, increment, increment, find, find): both pass the check before
  either increments, and both are answered 200 with the content, on the JSON
  route and on the HTML route alike.
\<close>

theorem two_readers_one_view:
  "map t_at (fst (run None [0, 1, 0, 1, 0, 1]
       ([arrived ApiRoute (getRequest pasteId) 2000, arrived ApiRoute (getRequest pasteId) 2000],
        oneViewBackend)))
     = [Finished (Json 200 (PasteBody ''secret'' (Some (Finite 0)) None)),
        Finished (Json 200 (PasteBody ''secret'' (Some (Finite 0)) None))]
   \<and> map t_at (fst (run None [0, 1, 0, 1, 0, 1]
       ([arrived ViewRoute (getRequest pasteId) 2000, arrived ViewRoute (getRequest pasteId) 2000],
        oneViewBackend)))
     = [Finished (Html 200 (PastePage (samplePaste None (Some (Finite 1)) 2) (Some (Finite 0)))),
        Finished (Html 200 (PastePage (samplePaste None (Some (Finite 1)) 2) (Some (Finite 0))))]"
  by (simp add: step_def arrived_def getRequest_def matchesObjectId_pasteId oneViewBackend_docs
      findById_def findByIdAndUpdate_inc_def hasExpired_def viewLimitReached_def served_def
      remainingViewsOf_def numSub_small getCurrentTime_def samplePaste_def Let_def)

text \<open>
  Claim C2. The same two readers leave the paste, created with
  \<open>maxViews = 1\<close> and \<open>viewsUsed = 0\<close>, at \<open>viewsUsed = 2\<close>: a state reached
  through create and read alone in which the counter exceeds \<open>maxViews\<close>.
\<close>

theorem two_readers_exceed_max_views:
  "map_option maxViews (docs oneViewBackend pasteId) = Some (Some (Finite 1))
   \<and> map_option viewsUsed (docs oneViewBackend pasteId) = Some 0
   \<and> map_option maxViews (docs (snd (run None [0, 1, 0, 1, 0, 1]
       ([arrived ApiRoute (getRequest pasteId) 2000, arrived ApiRoute (getRequest pasteId) 2000],
        oneViewBackend))) pasteId) = Some (Some (Finite 1))
   \<and> map_option viewsUsed (docs (snd (run None [0, 1, 0, 1, 0, 1]
       ([arrived ApiRoute (getRequest pasteId) 2000, arrived ApiRoute (getRequest pasteId) 2000],
        oneViewBackend))) pasteId) = Some 2"
  by (simp add: step_def arrived_def getRequest_def matchesObjectId_pasteId oneViewBackend_docs
      findById_def findByIdAndUpdate_inc_def hasExpired_def viewLimitReached_def served_def
      remainingViewsOf_def numSub_small getCurrentTime_def samplePaste_def Let_def)

end
